theory Spec2Isabelle
  imports Complex_Main "HOL-Library.Sublist"
begin

section \<open>JavaScript values\<close>

text \<open>
  The route handlers work on untyped values: the parsed JSON of a search response, the
  fields read from it and the values of \<^verbatim>\<open>process.env\<close>. A value is \<^verbatim>\<open>undefined\<close>,
  \<^verbatim>\<open>null\<close>, a boolean, a number, a string, an array, an object (its own properties
  in order) or a built-in function (by name; parsed JSON holds none, but a string item
  inherits one, see \<open>read_prop\<close>). Only the zero test and the decimal rendering of a number
  are used by this code, so a number is an integer here. Strings are lists of 8-bit
  characters.
\<close>

datatype jsval =
    JUndefined
  | JNull
  | JBool bool
  | JNum int
  | JStr string
  | JArr "jsval list"
  | JObj "(string \<times> jsval) list"
  | JFunction string

text \<open>Truthiness, as tested by \<^verbatim>\<open>!x\<close>, \<^verbatim>\<open>x || y\<close> and \<^verbatim>\<open>if (x)\<close>.\<close>

fun truthy :: "jsval \<Rightarrow> bool" where
  "truthy JUndefined = False"
| "truthy JNull = False"
| "truthy (JBool b) = b"
| "truthy (JNum n) = (n \<noteq> 0)"
| "truthy (JStr s) = (s \<noteq> [])"
| "truthy (JArr xs) = True"
| "truthy (JObj kvs) = True"
| "truthy (JFunction f) = True"

text \<open>\<^verbatim>\<open>a || b\<close>: the left operand when it is truthy, the right one otherwise.\<close>

definition js_or :: "jsval \<Rightarrow> jsval \<Rightarrow> jsval" where
  "js_or a b = (if truthy a then a else b)"

section \<open>The check-env endpoint\<close>

text \<open>
  \<^verbatim>\<open>process.env\<close> maps a variable name to a string or to nothing; reading an unset variable
  gives \<^verbatim>\<open>undefined\<close>.
\<close>

type_synonym env = "string \<Rightarrow> string option"

definition env_read :: "env \<Rightarrow> string \<Rightarrow> jsval" where
  "env_read e k = (case e k of None \<Rightarrow> JUndefined | Some v \<Rightarrow> JStr v)"

text \<open>\<^verbatim>\<open>!!x\<close>\<close>

definition not_not :: "jsval \<Rightarrow> jsval" where
  "not_not v = JBool (truthy v)"

text \<open>The body of the JSON response of \<^verbatim>\<open>GET\<close> in check-env/route.ts.\<close>

definition GET :: "env \<Rightarrow> jsval" where
  "GET e = JObj
     [(''hasFirecrawlKey'', not_not (env_read e ''FIRECRAWL_API_KEY'')),
      (''hasFirecrawlBaseUrl'', not_not (env_read e ''FIRECRAWL_BASE_URL'')),
      (''hasOpenAIKey'', not_not (env_read e ''OPENAI_API_KEY'')),
      (''hasOpenAIBaseUrl'', not_not (env_read e ''OPENAI_BASE_URL'')),
      (''hasOpenAIModel'', not_not (env_read e ''OPENAI_MODEL'')),
      (''hasOpenAIApiMode'', not_not (env_read e ''OPENAI_API_MODE''))]"

text \<open>The six variables the endpoint reads.\<close>

definition check_env_vars :: "string list" where
  "check_env_vars =
     [''FIRECRAWL_API_KEY'', ''FIRECRAWL_BASE_URL'', ''OPENAI_API_KEY'',
      ''OPENAI_BASE_URL'', ''OPENAI_MODEL'', ''OPENAI_API_MODE'']"

text \<open>The values of the properties of an object (nothing for any other value).\<close>

fun values_of :: "jsval \<Rightarrow> jsval list" where
  "values_of (JObj kvs) = map snd kvs"
| "values_of v = []"

section \<open>Follow-up questions\<close>

text \<open>
  \<^verbatim>\<open>String.prototype.split\<close> with a one-character separator: the pieces between the
  separators, so the empty string gives one empty piece.
\<close>

fun split_on :: "char \<Rightarrow> string \<Rightarrow> string list" where
  "split_on c [] = [[]]"
| "split_on c (x # xs) =
     (if x = c then [] # split_on c xs
      else (case split_on c xs of
              [] \<Rightarrow> [[x]]
            | l # ls \<Rightarrow> (x # l) # ls))"

text \<open>
  The white space and line terminators that \<^verbatim>\<open>String.prototype.trim\<close> removes, among the
  8-bit characters: tab, line feed, vertical tab, form feed, carriage return, space and
  the no-break space.
\<close>

definition is_ws :: "char \<Rightarrow> bool" where
  "is_ws c = (c \<in> {CHR 0x09, CHR 0x0A, CHR 0x0B, CHR 0x0C, CHR 0x0D, CHR 0x20, CHR 0xA0})"

definition trim :: "string \<Rightarrow> string" where
  "trim s = rev (dropWhile is_ws (rev (dropWhile is_ws s)))"

text \<open>
  \<^verbatim>\<open>followUpResponse.text.split('\n').map(q => q.trim()).filter(q => q.length > 0).slice(0, 5)\<close>
\<close>

definition followUpQuestions :: "string \<Rightarrow> string list" where
  "followUpQuestions text =
     take 5 (filter (\<lambda>q. length q > 0) (map trim (split_on (CHR 0x0A) text)))"

section \<open>Reading and printing values\<close>

text \<open>
  A value thrown and caught: whether it is an \<^verbatim>\<open>Error\<close> instance, its \<^verbatim>\<open>message\<close>, and
  its \<^verbatim>\<open>statusCode\<close> and \<^verbatim>\<open>status\<close> properties. Such a property is absent (\<open>None\<close>),
  or present with the value \<^verbatim>\<open>undefined\<close> (\<open>Some None\<close>) or with a number (status codes are
  numbers). A thrown primitive is not an \<^verbatim>\<open>Error\<close> and has neither property.
\<close>

record thrown =
  is_Error :: bool
  message :: string
  statusCode :: "int option option"
  status :: "int option option"

text \<open>The \<^verbatim>\<open>TypeError\<close> of the runtime for reading property \<open>k\<close> of \<^verbatim>\<open>null\<close> or \<^verbatim>\<open>undefined\<close>.\<close>

definition type_error :: "string \<Rightarrow> string \<Rightarrow> thrown" where
  "type_error what k =
     \<lparr>is_Error = True,
      message = ''Cannot read properties of '' @ what @ '' (reading '' @ [CHR 0x27] @ k @ [CHR 0x27] @ '')'',
      statusCode = None, status = None\<rparr>"

definition nullish :: "jsval \<Rightarrow> bool" where
  "nullish v = (v = JNull \<or> v = JUndefined)"

text \<open>
  \<^verbatim>\<open>v.k\<close> for a value that is neither \<^verbatim>\<open>null\<close> nor \<^verbatim>\<open>undefined\<close>, for the property
  names that this code reads: the own property of an object, \<^verbatim>\<open>undefined\<close> when it has
  none. Of the members that the prototypes of strings, numbers, booleans, arrays and
  objects provide, the code reads one name only: \<^verbatim>\<open>link\<close>, which every string inherits
  from \<^verbatim>\<open>String.prototype\<close>.
\<close>

fun read_prop :: "jsval \<Rightarrow> string \<Rightarrow> jsval" where
  "read_prop (JObj kvs) k = (case map_of kvs k of None \<Rightarrow> JUndefined | Some v \<Rightarrow> v)"
| "read_prop (JStr s) k = (if k = ''link'' then JFunction ''link'' else JUndefined)"
| "read_prop v k = JUndefined"

text \<open>\<^verbatim>\<open>v.k\<close>, which throws on \<^verbatim>\<open>null\<close> and \<^verbatim>\<open>undefined\<close>.\<close>

definition get :: "jsval \<Rightarrow> string \<Rightarrow> thrown + jsval" where
  "get v k =
     (if v = JNull then Inl (type_error ''null'' k)
      else if v = JUndefined then Inl (type_error ''undefined'' k)
      else Inr (read_prop v k))"

text \<open>\<^verbatim>\<open>v?.k\<close>\<close>

definition opt_prop :: "jsval \<Rightarrow> string \<Rightarrow> jsval" where
  "opt_prop v k = (if nullish v then JUndefined else read_prop v k)"

text \<open>\<^verbatim>\<open>v?.[0]\<close>: the first element of an array, the first character of a string, the
  property \<^verbatim>\<open>"0"\<close> of an object.\<close>

fun opt_index0 :: "jsval \<Rightarrow> jsval" where
  "opt_index0 (JArr (x # xs)) = x"
| "opt_index0 (JStr (c # cs)) = JStr [c]"
| "opt_index0 (JObj kvs) = read_prop (JObj kvs) ''0''"
| "opt_index0 v = JUndefined"

text \<open>\<^verbatim>\<open>Array.isArray(v) ? v : []\<close>\<close>

fun array_or_empty :: "jsval \<Rightarrow> jsval list" where
  "array_or_empty (JArr xs) = xs"
| "array_or_empty v = []"

text \<open>Decimal digits of a natural number, and of an integer.\<close>

fun dec :: "nat \<Rightarrow> string" where
  "dec n = (if n < 10 then [''0123456789'' ! n] else dec (n div 10) @ [''0123456789'' ! (n mod 10)])"

declare dec.simps [simp del]

definition dec_int :: "int \<Rightarrow> string" where
  "dec_int i = (if i < 0 then CHR ''-'' # dec (nat (- i)) else dec (nat i))"

text \<open>\<^verbatim>\<open>Array.prototype.join\<close>\<close>

fun join :: "string \<Rightarrow> string list \<Rightarrow> string" where
  "join sep [] = []"
| "join sep [x] = x"
| "join sep (x # y # ys) = x @ sep @ join sep (y # ys)"

text \<open>
  The string a template literal puts for a value (\<^verbatim>\<open>String(v)\<close>): an array is its elements
  joined by commas, \<^verbatim>\<open>null\<close> and \<^verbatim>\<open>undefined\<close> elements printing as nothing; a built-in
  function prints as its source text. A number prints with all its digits, which is what
  JavaScript does below \<^verbatim>\<open>1e21\<close> in magnitude (from there on it prints an exponent).
\<close>

fun to_string :: "jsval \<Rightarrow> string" where
  "to_string JUndefined = ''undefined''"
| "to_string JNull = ''null''"
| "to_string (JBool b) = (if b then ''true'' else ''false'')"
| "to_string (JNum n) = dec_int n"
| "to_string (JStr s) = s"
| "to_string (JArr xs) =
     join '','' (map (\<lambda>x. if x = JNull \<or> x = JUndefined then [] else to_string x) xs)"
| "to_string (JObj kvs) = ''[object Object]''"
| "to_string (JFunction f) = ''function '' @ f @ ''() { [native code] }''"

text \<open>
  \<^verbatim>\<open>a === b\<close> for the value at position \<open>i\<close> and the value at position \<open>j\<close> of one parsed
  payload: primitives are compared by value; arrays and objects are compared by reference,
  and two positions of a parsed payload never hold the same reference. A built-in
  function is one object, whoever reads it.
\<close>

fun is_ref :: "jsval \<Rightarrow> bool" where
  "is_ref (JArr xs) = True"
| "is_ref (JObj kvs) = True"
| "is_ref v = False"

definition strict_eq_at :: "nat \<Rightarrow> jsval \<Rightarrow> nat \<Rightarrow> jsval \<Rightarrow> bool" where
  "strict_eq_at i a j b = (if is_ref a \<or> is_ref b then i = j \<and> a = b else a = b)"

section \<open>Functions the route imports or calls from the runtime\<close>

text \<open>
  The result of \<^verbatim>\<open>Number(x)\<close>: not a number, an infinity, or a finite number (every finite
  double is a rational).
\<close>

datatype jsnum = NaN | PlusInfinity | MinusInfinity | Finite rat

text \<open>
  The functions whose code is not part of the route: the host name of \<^verbatim>\<open>new URL(s)\<close>
  (nothing when the constructor throws), \<^verbatim>\<open>Number\<close> on a string, \<^verbatim>\<open>selectRelevantContent\<close>
  of lib/content-selection, \<^verbatim>\<open>detectCompanyTicker\<close> of lib/company-ticker-map, and
  \<^verbatim>\<open>convertToModelMessages\<close> of the ai package, of which the model keeps whether it throws
  on the earlier turns (what it returns goes to the answer call only). They are parameters
  of the model. The selector and the ticker detection are total here, as the
  specification gives them (a pure function of its inputs, and a detection whose failure
  to match is not an error).
\<close>

record externals =
  url_hostname :: "string \<Rightarrow> string option"
  to_number :: "string \<Rightarrow> jsnum"
  selectRelevantContent :: "jsval \<Rightarrow> string \<Rightarrow> int \<Rightarrow> string"
  detectCompanyTicker :: "string \<Rightarrow> string option"
  convertToModelMessages :: "jsval list \<Rightarrow> thrown option"

section \<open>Normalization of the search results\<close>

record source =
  url :: jsval
  title :: jsval
  description :: jsval
  content :: jsval
  markdown :: jsval
  favicon :: jsval
  image :: jsval
  siteName :: jsval

record news_item =
  news_url :: jsval
  news_title :: jsval
  news_description :: jsval
  news_publishedDate :: jsval
  news_source :: jsval
  news_image :: jsval

record image_item =
  img_url :: jsval
  img_title :: jsval
  img_thumbnail :: jsval
  img_source :: jsval
  img_width :: jsval
  img_height :: jsval
  img_position :: jsval

text \<open>\<^verbatim>\<open>hostname.replace(/^www\./, '')\<close>\<close>

definition strip_www :: "string \<Rightarrow> string" where
  "strip_www h = (if take 4 h = ''www.'' then drop 4 h else h)"

text \<open>\<^verbatim>\<open>buildHostInfo\<close>: the pair \<open>(host, siteName)\<close>.\<close>

definition buildHostInfo :: "externals \<Rightarrow> jsval \<Rightarrow> jsval \<times> jsval" where
  "buildHostInfo X u =
     (if \<not> truthy u then (JUndefined, JUndefined)
      else (case url_hostname X (to_string u) of
              None \<Rightarrow> (JUndefined, JUndefined)
            | Some hostname \<Rightarrow> (JStr hostname, JStr (strip_www hostname))))"

definition buildFavicon :: "jsval \<Rightarrow> jsval" where
  "buildFavicon host =
     (if truthy host
      then JStr (''https://www.google.com/s2/favicons?domain='' @ to_string host @ ''&sz=64'')
      else JUndefined)"

text \<open>\<^verbatim>\<open>a || b || c || ...\<close> over the properties of an item, in the order written.\<close>

fun first_truthy :: "jsval \<Rightarrow> string list \<Rightarrow> jsval" where
  "first_truthy item [] = JUndefined"
| "first_truthy item [k] = read_prop item k"
| "first_truthy item (k # ks) = js_or (read_prop item k) (first_truthy item ks)"

text \<open>
  The callback of \<^verbatim>\<open>webResults.map\<close>: the first thing it does is read \<^verbatim>\<open>item.url\<close>, which
  throws when the item is \<^verbatim>\<open>null\<close>; it returns \<^verbatim>\<open>null\<close> (here \<open>None\<close>) for an item with
  no url.
\<close>

definition web_item :: "externals \<Rightarrow> jsval \<Rightarrow> thrown + source option" where
  "web_item X item =
     (case get item ''url'' of
        Inl e \<Rightarrow> Inl e
      | Inr _ \<Rightarrow>
          (let u = first_truthy item [''url'', ''href'', ''link''] in
           if \<not> truthy u then Inr None
           else (let (host, site) = buildHostInfo X u in
                 Inr (Some \<lparr>url = u,
                            title = js_or (read_prop item ''title'') u,
                            description = first_truthy item [''content'', ''summary'', ''abstract''],
                            content = read_prop item ''content'',
                            markdown = JUndefined,
                            favicon = buildFavicon host,
                            image = first_truthy item [''img_src'', ''thumbnail'', ''image''],
                            siteName = js_or site host\<rparr>))))"

text \<open>The callback of \<^verbatim>\<open>newsSource.map\<close>; the filter that follows keeps the truthy urls.\<close>

definition news_entry :: "externals \<Rightarrow> jsval \<Rightarrow> thrown + news_item" where
  "news_entry X item =
     (case get item ''url'' of
        Inl e \<Rightarrow> Inl e
      | Inr _ \<Rightarrow>
          (let itemUrl = first_truthy item [''url'', ''link'', ''pageUrl'', ''sourceUrl''];
               imageUrl = first_truthy item
                 [''imageUrl'', ''image_url'', ''image'', ''thumbnail'', ''thumbnailUrl'',
                  ''img_src'', ''img'', ''img_srcset''];
               publishedDate = first_truthy item
                 [''date'', ''publishedDate'', ''published_at'', ''publishedAt'', ''published'',
                  ''time''];
               (host, site) = buildHostInfo X itemUrl
           in Inr \<lparr>news_url = itemUrl,
                   news_title = read_prop item ''title'',
                   news_description = first_truthy item [''content'', ''summary'', ''description''],
                   news_publishedDate = publishedDate,
                   news_source =
                     js_or (js_or (read_prop item ''source'')
                                  (opt_index0 (read_prop item ''engines''))) site,
                   news_image = imageUrl\<rparr>))"

text \<open>The callback of \<^verbatim>\<open>imageSource.map\<close>.\<close>

definition image_entry :: "externals \<Rightarrow> jsval \<Rightarrow> thrown + image_item option" where
  "image_entry X item =
     (case get item ''url'' of
        Inl e \<Rightarrow> Inl e
      | Inr _ \<Rightarrow>
          (let targetUrl = first_truthy item
                 [''url'', ''link'', ''pageUrl'', ''sourceUrl'', ''img_src''];
               imageUrl = first_truthy item
                 [''imageUrl'', ''image_url'', ''image'', ''thumbnail'', ''thumbnailUrl'',
                  ''img_src'', ''thumbnail_src'']
           in if \<not> truthy targetUrl then Inr None
              else Inr (Some \<lparr>img_url = targetUrl,
                               img_title = js_or (read_prop item ''title'') (JStr ''Untitled''),
                               img_thumbnail = imageUrl,
                               img_source = snd (buildHostInfo X targetUrl),
                               img_width = read_prop item ''imageWidth'',
                               img_height = read_prop item ''imageHeight'',
                               img_position = read_prop item ''position''\<rparr>)))"

text \<open>\<^verbatim>\<open>Array.prototype.map\<close> with a callback that may throw: the first throw ends it.\<close>

fun map_throwing :: "('a \<Rightarrow> thrown + 'b) \<Rightarrow> 'a list \<Rightarrow> thrown + 'b list" where
  "map_throwing f [] = Inr []"
| "map_throwing f (x # xs) =
     (case f x of
        Inl e \<Rightarrow> Inl e
      | Inr y \<Rightarrow> (case map_throwing f xs of Inl e \<Rightarrow> Inl e | Inr ys \<Rightarrow> Inr (y # ys)))"

text \<open>\<^verbatim>\<open>.filter(Boolean)\<close> on the results of a callback that returns an object or \<^verbatim>\<open>null\<close>.\<close>

fun filter_Boolean :: "'a option list \<Rightarrow> 'a list" where
  "filter_Boolean [] = []"
| "filter_Boolean (None # xs) = filter_Boolean xs"
| "filter_Boolean (Some x # xs) = x # filter_Boolean xs"

definition normalize_web :: "externals \<Rightarrow> jsval list \<Rightarrow> thrown + source list" where
  "normalize_web X webResults =
     (case map_throwing (web_item X) webResults of
        Inl e \<Rightarrow> Inl e
      | Inr rs \<Rightarrow> Inr (filter_Boolean rs))"

definition normalize_news :: "externals \<Rightarrow> jsval list \<Rightarrow> thrown + news_item list" where
  "normalize_news X newsSource =
     (case map_throwing (news_entry X) newsSource of
        Inl e \<Rightarrow> Inl e
      | Inr rs \<Rightarrow> Inr (filter (\<lambda>item. truthy (news_url item)) rs))"

definition normalize_images :: "externals \<Rightarrow> jsval list \<Rightarrow> thrown + image_item list" where
  "normalize_images X imageSource =
     (case map_throwing (image_entry X) imageSource of
        Inl e \<Rightarrow> Inl e
      | Inr rs \<Rightarrow> Inr (filter_Boolean rs))"

text \<open>
  The arrays taken from the three payloads. \<open>webData\<close> is never \<^verbatim>\<open>null\<close>; \<open>newsData\<close> and
  \<open>imagesData\<close> are \<^verbatim>\<open>null\<close> when their search failed and are read with \<^verbatim>\<open>?.\<close>.
\<close>

definition webResults_of :: "jsval \<Rightarrow> jsval list" where
  "webResults_of webData = array_or_empty (read_prop webData ''results'')"

definition newsSource_of :: "jsval \<Rightarrow> jsval list" where
  "newsSource_of newsData =
     (case opt_prop newsData ''results'' of
        JArr xs \<Rightarrow> xs
      | _ \<Rightarrow> array_or_empty (opt_prop newsData ''news''))"

definition imageSource_of :: "jsval \<Rightarrow> jsval list" where
  "imageSource_of imagesData =
     (case opt_prop imagesData ''results'' of
        JArr xs \<Rightarrow> xs
      | _ \<Rightarrow> array_or_empty (opt_prop imagesData ''images''))"

section \<open>The searches\<close>

text \<open>
  What \<^verbatim>\<open>fetch\<close> gives for one request: it rejects with a thrown value (a request that
  cannot be built counts here too), or it resolves with a response, of which the code
  reads \<^verbatim>\<open>ok\<close>, the outcome of \<^verbatim>\<open>json()\<close> (the parsed value, or a thrown value) and
  \<^verbatim>\<open>statusText\<close>.
\<close>

datatype http = FetchRejected thrown | Response bool "thrown + jsval" string

definition new_Error :: "string \<Rightarrow> thrown" where
  "new_Error m = \<lparr>is_Error = True, message = m, statusCode = None, status = None\<rparr>"

text \<open>
  The errors of the runtime carry a message: what \<^verbatim>\<open>new URL\<close>, \<^verbatim>\<open>fetch\<close> and
  \<^verbatim>\<open>response.json()\<close> throw is an \<^verbatim>\<open>Error\<close> (a \<^verbatim>\<open>TypeError\<close>, a \<^verbatim>\<open>SyntaxError\<close>, a
  \<^verbatim>\<open>DOMException\<close>) whose message is not empty. This is the condition on a thrown value,
  and on the thrown values that a response holds.
\<close>

definition carries_message :: "thrown \<Rightarrow> bool" where
  "carries_message e = (is_Error e \<longrightarrow> message e \<noteq> [])"

fun errors_carry_message :: "http \<Rightarrow> bool" where
  "errors_carry_message (FetchRejected e) = carries_message e"
| "errors_carry_message (Response ok (Inl e) statusText) = carries_message e"
| "errors_carry_message (Response ok (Inr j) statusText) = True"

text \<open>
  \<^verbatim>\<open>performSourceSearch\<close>, from the response on. On a response that is not ok the body is
  read with \<^verbatim>\<open>.catch(() => ({}))\<close> and an \<^verbatim>\<open>Error\<close> is thrown; otherwise the result is
  \<^verbatim>\<open>json || {}\<close>.
\<close>

definition performSourceSearch :: "http \<Rightarrow> thrown + jsval" where
  "performSourceSearch h =
     (case h of
        FetchRejected e \<Rightarrow> Inl e
      | Response ok body statusText \<Rightarrow>
          if \<not> ok then
            (let errorData = (case body of Inl _ \<Rightarrow> JObj [] | Inr j \<Rightarrow> j) in
             case get errorData ''error'' of
               Inl e \<Rightarrow> Inl e
             | Inr err \<Rightarrow>
                 Inl (new_Error (''SearxNG search error: '' @ to_string (js_or err (JStr statusText)))))
          else (case body of
                  Inl e \<Rightarrow> Inl e
                | Inr json \<Rightarrow> Inr (js_or json (JObj []))))"

text \<open>A best-effort search: a throw is caught and logged, and the result is \<^verbatim>\<open>null\<close>.\<close>

definition best_effort :: "http \<Rightarrow> jsval" where
  "best_effort h = (case performSourceSearch h of Inl e \<Rightarrow> JNull | Inr j \<Rightarrow> j)"

text \<open>
  \<^verbatim>\<open>Promise.all\<close> of the three searches: only the general search can reject it.
\<close>

definition search_all :: "http \<Rightarrow> http \<Rightarrow> http \<Rightarrow> thrown + (jsval \<times> jsval \<times> jsval)" where
  "search_all general news images =
     (case performSourceSearch general of
        Inl e \<Rightarrow> Inl e
      | Inr webData \<Rightarrow> Inr (webData, best_effort news, best_effort images))"

section \<open>Enrichment\<close>

text \<open>
  \<^verbatim>\<open>Number(process.env.FIRECRAWL_SCRAPE_LIMIT ?? 5)\<close>, then
  \<^verbatim>\<open>Number.isFinite(parsedLimit) && parsedLimit > 0 ? Math.floor(parsedLimit) : 5\<close>.
\<close>

definition parsedLimit :: "externals \<Rightarrow> string option \<Rightarrow> jsnum" where
  "parsedLimit X v = (case v of None \<Rightarrow> Finite 5 | Some s \<Rightarrow> to_number X s)"

definition scrapeLimit :: "jsnum \<Rightarrow> int" where
  "scrapeLimit p = (case p of Finite q \<Rightarrow> (if q > 0 then \<lfloor>q\<rfloor> else 5) | _ \<Rightarrow> 5)"

text \<open>\<^verbatim>\<open>sources.slice(0, Math.max(1, scrapeLimit))\<close>\<close>

definition targets :: "int \<Rightarrow> source list \<Rightarrow> source list" where
  "targets limit srcs = take (nat (max 1 limit)) srcs"

text \<open>
  A settled scrape: rejected, or fulfilled with the \<^verbatim>\<open>markdown\<close> and \<^verbatim>\<open>content\<close> of the
  value the callback returns (its \<^verbatim>\<open>url\<close> is the url of the target at the same position).
\<close>

datatype settled = Rejected | Fulfilled jsval jsval

text \<open>
  The callback of \<^verbatim>\<open>targets.map\<close>, from the response on. It throws on a rejected fetch, on
  a response that is not ok, on a body that does not parse and on a body that is
  \<^verbatim>\<open>null\<close>; otherwise it returns \<^verbatim>\<open>scrapeJson.data?.markdown || undefined\<close> and the same
  for \<^verbatim>\<open>content\<close>.
\<close>

definition scrape_one :: "http \<Rightarrow> settled" where
  "scrape_one h =
     (case h of
        FetchRejected e \<Rightarrow> Rejected
      | Response ok body statusText \<Rightarrow>
          if \<not> ok then Rejected
          else (case body of
                  Inl e \<Rightarrow> Rejected
                | Inr scrapeJson \<Rightarrow>
                    (case get scrapeJson ''data'' of
                       Inl e \<Rightarrow> Rejected
                     | Inr d \<Rightarrow>
                         Fulfilled (js_or (opt_prop d ''markdown'') JUndefined)
                                   (js_or (opt_prop d ''content'') JUndefined))))"

text \<open>
  \<^verbatim>\<open>sources.find((s) => s.url === u)\<close> as a position, where \<open>u\<close> is the url of the source at
  position \<open>i\<close>; \<open>k\<close> is the position of the head of the list.
\<close>

fun find_url :: "nat \<Rightarrow> nat \<Rightarrow> jsval \<Rightarrow> source list \<Rightarrow> nat option" where
  "find_url k i u [] = None"
| "find_url k i u (s # ss) =
     (if strict_eq_at k (url s) i u then Some k else find_url (Suc k) i u ss)"

text \<open>
  One step of \<^verbatim>\<open>scraped.forEach\<close>, for the result at position \<open>i\<close>: on a fulfilled result
  the first source with the target's url gets \<^verbatim>\<open>value.markdown || match.markdown\<close> and
  \<^verbatim>\<open>value.content || match.content\<close>.
\<close>

definition merge_one :: "nat \<Rightarrow> jsval \<Rightarrow> settled \<Rightarrow> source list \<Rightarrow> source list" where
  "merge_one i u r srcs =
     (case r of
        Rejected \<Rightarrow> srcs
      | Fulfilled md ct \<Rightarrow>
          (case find_url 0 i u srcs of
             None \<Rightarrow> srcs
           | Some j \<Rightarrow>
               srcs[j := (srcs ! j)\<lparr>markdown := js_or md (markdown (srcs ! j)),
                                     content := js_or ct (content (srcs ! j))\<rparr>]))"

text \<open>
  \<^verbatim>\<open>scraped.forEach\<close>: the results from position \<open>i\<close> on, each paired with the url of its
  target.
\<close>

fun merge_scraped :: "nat \<Rightarrow> (jsval \<times> settled) list \<Rightarrow> source list \<Rightarrow> source list" where
  "merge_scraped i [] srcs = srcs"
| "merge_scraped i ((u, r) # rs) srcs = merge_scraped (Suc i) rs (merge_one i u r srcs)"

text \<open>
  The enrichment of the sources: the scrapes of the targets (the response of the scrape
  of position \<open>i\<close> is \<open>responses i\<close>), all settled, then merged in order.
\<close>

definition scraped :: "(nat \<Rightarrow> http) \<Rightarrow> source list \<Rightarrow> (jsval \<times> settled) list" where
  "scraped responses ts = map (\<lambda>(i, t). (url t, scrape_one (responses i))) (enumerate 0 ts)"

definition enrich :: "int \<Rightarrow> (nat \<Rightarrow> http) \<Rightarrow> source list \<Rightarrow> source list" where
  "enrich limit responses srcs = merge_scraped 0 (scraped responses (targets limit srcs)) srcs"

section \<open>Context\<close>

text \<open>
  The callback of \<^verbatim>\<open>sources.map\<close> that builds one block of the context:
  \<^verbatim>\<open>`[${index + 1}] ${source.title}\nURL: ${source.url}\n${relevantContent}`\<close>.
\<close>

definition best_content :: "source \<Rightarrow> jsval" where
  "best_content s = js_or (js_or (markdown s) (content s)) (JStr [])"

definition context_block :: "externals \<Rightarrow> string \<Rightarrow> nat \<Rightarrow> source \<Rightarrow> string" where
  "context_block X query index s =
     ''['' @ dec (index + 1) @ ''] '' @ to_string (title s) @ [CHR 0x0A]
     @ ''URL: '' @ to_string (url s) @ [CHR 0x0A]
     @ selectRelevantContent X (best_content s) query 2000"

text \<open>\<^verbatim>\<open>Array.prototype.map\<close> with the index, from index \<open>i\<close>.\<close>

fun map_index :: "(nat \<Rightarrow> 'a \<Rightarrow> 'b) \<Rightarrow> nat \<Rightarrow> 'a list \<Rightarrow> 'b list" where
  "map_index f i [] = []"
| "map_index f i (x # xs) = f i x # map_index f (Suc i) xs"

definition context_separator :: string where
  "context_separator = [CHR 0x0A, CHR 0x0A] @ ''---'' @ [CHR 0x0A, CHR 0x0A]"

definition build_context :: "externals \<Rightarrow> string \<Rightarrow> source list \<Rightarrow> string" where
  "build_context X query srcs = join context_separator (map_index (context_block X query) 0 srcs)"

section \<open>The event stream\<close>

text \<open>The payload of a \<^verbatim>\<open>data-sources\<close> part and of a \<^verbatim>\<open>data-error\<close> part.\<close>

record search_bundle =
  b_sources :: "source list"
  b_newsResults :: "news_item list"
  b_imageResults :: "image_item list"

record error_data =
  e_error :: string
  e_suggestion :: "string option"
  e_statusCode :: "int option"

text \<open>
  What the writer receives: a transient \<^verbatim>\<open>data-status\<close> part (id and message), a
  \<^verbatim>\<open>data-sources\<close>, \<^verbatim>\<open>data-ticker\<close>, \<^verbatim>\<open>data-followup\<close> or \<^verbatim>\<open>data-error\<close> part, and the
  text deltas of the merged answer stream.
\<close>

datatype event =
    Status string string
  | Sources search_bundle
  | Ticker string
  | TextDelta string
  | Followup "string list"
  | Error error_data

text \<open>The table \<^verbatim>\<open>errorResponses\<close> of the catch block: message and suggestion by status code.\<close>

definition errorResponses :: "int \<Rightarrow> (string \<times> string) option" where
  "errorResponses c =
     (if c = 401 then Some (''Invalid API key'', ''Please check your Firecrawl API key is correct.'')
      else if c = 402 then
        Some (''Insufficient credits'',
              ''You'' @ [CHR 0x27] @ ''ve run out of Firecrawl credits. Please upgrade your plan.'')
      else if c = 429 then
        Some (''Rate limit exceeded'', ''Too many requests. Please wait a moment and try again.'')
      else if c = 504 then
        Some (''Request timeout'',
              ''The search took too long. Try a simpler query or fewer sources.'')
      else None)"

text \<open>
  The \<^verbatim>\<open>data-error\<close> part the catch block writes for a thrown value. The status code is
  \<^verbatim>\<open>error.statusCode\<close> when the value has that property (whatever it holds), else
  \<^verbatim>\<open>error.status\<close> when it has that one, else \<^verbatim>\<open>undefined\<close>. A status code counts when
  it is truthy (not zero); a suggestion is added when it is a non-empty string.
\<close>

definition error_event :: "thrown \<Rightarrow> event" where
  "error_event e =
     (let errorMessage = (if is_Error e then message e else ''Unknown error'');
          code = (case statusCode e of
                    Some v \<Rightarrow> v
                  | None \<Rightarrow> (case status e of Some v \<Rightarrow> v | None \<Rightarrow> None));
          code' = (case code of Some c \<Rightarrow> (if c \<noteq> 0 then Some c else None) | None \<Rightarrow> None);
          errorResponse =
            (case code' of
               None \<Rightarrow> (errorMessage, None)
             | Some c \<Rightarrow>
                 (case errorResponses c of
                    None \<Rightarrow> (errorMessage, None)
                  | Some (m, s) \<Rightarrow> (m, if s \<noteq> [] then Some s else None)))
      in Error \<lparr>e_error = fst errorResponse, e_suggestion = snd errorResponse,
                e_statusCode = code'\<rparr>)"

section \<open>The request\<close>

text \<open>
  The answer stream: the text deltas it delivers, and the thrown value when awaiting
  \<^verbatim>\<open>result.text\<close> fails.
\<close>

datatype answer = Answered "string list" | AnswerFailed "string list" thrown

text \<open>
  One request and what the world outside the route does during it: the query and the
  messages of the request body (an array), the responses to the three searches, the value
  of \<^verbatim>\<open>FIRECRAWL_SCRAPE_LIMIT\<close>, the response to the scrape of each target, the answer
  stream for a given user message (the system message and the earlier turns do not depend
  on the searches), and the outcome of the follow-up call (its text, or a thrown value).
\<close>

record world =
  query :: string
  messages :: "jsval list"
  general :: http
  news :: http
  images :: http
  scrape_limit_env :: "string option"
  scrapes :: "nat \<Rightarrow> http"
  answer_stream :: "string \<Rightarrow> answer"
  followUpResponse :: "thrown + string"

text \<open>
  The local variables of \<^verbatim>\<open>execute\<close> (\<open>context_str\<close> is the variable \<^verbatim>\<open>context\<close>), and the
  parts written so far.
\<close>

record state =
  sources :: "source list"
  newsResults :: "news_item list"
  imageResults :: "image_item list"
  context_str :: string
  events :: "event list"

definition writer_write :: "event \<Rightarrow> state \<Rightarrow> state" where
  "writer_write ev st = st\<lparr>events := events st @ [ev]\<rparr>"

definition current_bundle :: "state \<Rightarrow> search_bundle" where
  "current_bundle st =
     \<lparr>b_sources = sources st, b_newsResults = newsResults st, b_imageResults = imageResults st\<rparr>"

text \<open>The content of the user message of the answer call.\<close>

definition user_prompt :: "string \<Rightarrow> string \<Rightarrow> string" where
  "user_prompt q ctx =
     ''Answer this query: '' @ [CHR 0x22] @ q @ [CHR 0x22, CHR 0x0A, CHR 0x0A]
     @ ''Based on these sources:'' @ [CHR 0x0A] @ ctx"

text \<open>
  The follow-up stage: the call is inside its own \<^verbatim>\<open>try\<close>, and a throw writes nothing.
\<close>

definition followup_stage :: "world \<Rightarrow> state \<Rightarrow> state" where
  "followup_stage w st =
     (case followUpResponse w of
        Inl e \<Rightarrow> st
      | Inr txt \<Rightarrow> writer_write (Followup (followUpQuestions txt)) st)"

text \<open>\<^verbatim>\<open>const isFollowUp = messages.length > 2\<close>\<close>

definition isFollowUp :: "world \<Rightarrow> bool" where
  "isFollowUp w = (length (messages w) > 2)"

text \<open>The \<^verbatim>\<open>TypeError\<close> of the runtime for calling what is not a function.\<close>

definition not_a_function :: "string \<Rightarrow> thrown" where
  "not_a_function what =
     \<lparr>is_Error = True, message = what @ '' is not a function'', statusCode = None,
      status = None\<rparr>"

text \<open>
  The callback of \<^verbatim>\<open>messages.map\<close> in \<^verbatim>\<open>conversationPreview\<close>: it reads \<^verbatim>\<open>m.parts\<close>; when
  that is truthy it calls \<^verbatim>\<open>filter\<close> on it (only an array has it), reading \<^verbatim>\<open>p.type\<close> of
  every part, and joins the \<^verbatim>\<open>text\<close> of the text parts with spaces.
\<close>

definition preview_entry :: "jsval \<Rightarrow> thrown + string" where
  "preview_entry m =
     (case get m ''parts'' of
        Inl e \<Rightarrow> Inl e
      | Inr parts \<Rightarrow>
          if truthy parts then
            (case parts of
               JArr ps \<Rightarrow>
                 (case map_throwing (\<lambda>p. get p ''type'') ps of
                    Inl e \<Rightarrow> Inl e
                  | Inr types \<Rightarrow>
                      Inr (to_string (read_prop m ''role'') @ '': ''
                           @ join '' ''
                               (map (\<lambda>p. let t = read_prop p ''text'' in
                                          if t = JNull \<or> t = JUndefined then [] else to_string t)
                                  (filter (\<lambda>p. read_prop p ''type'' = JStr ''text'') ps))))
             | _ \<Rightarrow> Inl (not_a_function ''m.parts.filter''))
          else Inr (to_string (read_prop m ''role'') @ '': ''))"

text \<open>
  \<^verbatim>\<open>conversationPreview\<close>, computed between the answer and the follow-up call, outside
  the \<^verbatim>\<open>try\<close> of the latter: a throw in it goes to the catch block of \<^verbatim>\<open>execute\<close>.
\<close>

definition conversationPreview :: "world \<Rightarrow> thrown + string" where
  "conversationPreview w =
     (if isFollowUp w then
        (case map_throwing preview_entry (messages w) of
           Inl e \<Rightarrow> Inl e
         | Inr entries \<Rightarrow> Inr (join [CHR 0x0A, CHR 0x0A] entries))
      else Inr (''user: '' @ query w))"

text \<open>
  The answer stage. For a follow-up the earlier turns (\<^verbatim>\<open>messages.slice(0, -1)\<close>) go
  through \<^verbatim>\<open>convertToModelMessages\<close> first. The stream is merged into the writer, then
  \<^verbatim>\<open>result.text\<close> is awaited, then the conversation preview is computed; a throw in any of
  the three leaves the \<^verbatim>\<open>try\<close> block with the thrown value. The follow-up stage comes
  last.
\<close>

definition answer_stage :: "externals \<Rightarrow> world \<Rightarrow> state \<Rightarrow> state \<times> thrown option" where
  "answer_stage X w st =
     (case (if isFollowUp w then convertToModelMessages X (butlast (messages w)) else None) of
        Some e \<Rightarrow> (st, Some e)
      | None \<Rightarrow>
          (case answer_stream w (user_prompt (query w) (context_str st)) of
             AnswerFailed deltas e \<Rightarrow>
               (st\<lparr>events := events st @ map TextDelta deltas\<rparr>, Some e)
           | Answered deltas \<Rightarrow>
               (case conversationPreview w of
                  Inl e \<Rightarrow> (st\<lparr>events := events st @ map TextDelta deltas\<rparr>, Some e)
                | Inr preview \<Rightarrow>
                    (followup_stage w (st\<lparr>events := events st @ map TextDelta deltas\<rparr>),
                     None))))"

text \<open>
  From the end of normalization to the context: enrichment of the sources when there are
  any, the \<^verbatim>\<open>data-sources\<close> part, the status parts, the ticker and the context.
\<close>

definition enrich_stage :: "externals \<Rightarrow> world \<Rightarrow> state \<Rightarrow> state" where
  "enrich_stage X w st =
     (if length (sources st) > 0 then
        (let st1 = writer_write (Status ''status-3a'' ''Fetching full article content...'') st;
             st2 = st1\<lparr>sources :=
                      enrich (scrapeLimit (parsedLimit X (scrape_limit_env w))) (scrapes w)
                        (sources st1)\<rparr>
         in writer_write (Sources (current_bundle st2)) st2)
      else writer_write (Sources (current_bundle st)) st)"

definition context_stage :: "externals \<Rightarrow> world \<Rightarrow> state \<Rightarrow> state" where
  "context_stage X w st =
     (let st1 = (if length (sources st) > 0
                 then writer_write (Status ''status-2b'' ''Analyzing detailed content...'') st else st);
          st2 = writer_write (Status ''status-3'' ''Analyzing sources and generating answer...'') st1;
          st3 = (case detectCompanyTicker X (query w) of
                   None \<Rightarrow> st2
                 | Some ticker \<Rightarrow> if ticker \<noteq> [] then writer_write (Ticker ticker) st2 else st2)
      in st3\<lparr>context_str := build_context X (query w) (sources st3)\<rparr>)"

text \<open>
  The body of the \<^verbatim>\<open>try\<close> block of \<^verbatim>\<open>execute\<close>: the state reached, and the thrown value
  when the block is left by a throw.
\<close>

definition try_block :: "externals \<Rightarrow> world \<Rightarrow> state \<Rightarrow> state \<times> thrown option" where
  "try_block X w st0 =
     (let st = writer_write (Status ''status-2'' ''Searching for relevant sources...'')
                 (writer_write (Status ''status-1'' ''Starting search...'') st0)
      in case search_all (general w) (news w) (images w) of
           Inl e \<Rightarrow> (st, Some e)
         | Inr (webData, newsData, imagesData) \<Rightarrow>
             (case normalize_web X (webResults_of webData) of
                Inl e \<Rightarrow> (st, Some e)
              | Inr srcs \<Rightarrow>
                  (case normalize_news X (newsSource_of newsData) of
                     Inl e \<Rightarrow> (st\<lparr>sources := srcs\<rparr>, Some e)
                   | Inr ns \<Rightarrow>
                       (case normalize_images X (imageSource_of imagesData) of
                          Inl e \<Rightarrow> (st\<lparr>sources := srcs, newsResults := ns\<rparr>, Some e)
                        | Inr ims \<Rightarrow>
                            answer_stage X w
                              (context_stage X w
                                (enrich_stage X w
                                  (st\<lparr>sources := srcs, newsResults := ns,
                                      imageResults := ims\<rparr>)))))))"

text \<open>\<^verbatim>\<open>execute\<close>: the \<^verbatim>\<open>try\<close> block, and the catch block that writes the \<^verbatim>\<open>data-error\<close> part.\<close>

definition execute :: "externals \<Rightarrow> world \<Rightarrow> state" where
  "execute X w =
     (case try_block X w \<lparr>sources = [], newsResults = [], imageResults = [], context_str = [],
                           events = []\<rparr> of
        (st, None) \<Rightarrow> st
      | (st, Some e) \<Rightarrow> writer_write (error_event e) st)"

text \<open>Counting the parts of one kind in a stream.\<close>

fun is_Sources :: "event \<Rightarrow> bool" where
  "is_Sources (Sources b) = True"
| "is_Sources ev = False"

fun is_Error_event :: "event \<Rightarrow> bool" where
  "is_Error_event (Error d) = True"
| "is_Error_event ev = False"

fun is_TextDelta :: "event \<Rightarrow> bool" where
  "is_TextDelta (TextDelta t) = True"
| "is_TextDelta ev = False"

section \<open>The relevance selector\<close>

text \<open>
  Modelled from the spec: \<^verbatim>\<open>selectRelevantContent\<close> of lib/content-selection, which the route
  imports and whose code is not among the sources. The specification (section 4.4) gives
  \<^verbatim>\<open>select(document, query, budget)\<close>, the budget being a whole number of characters, and
  leaves open how the document is cut into segments and how a segment is scored against
  the query; both are parameters here.
\<close>

record selector =
  segments :: "string \<Rightarrow> string list"
  score :: "string \<Rightarrow> string \<Rightarrow> nat"

text \<open>
  Modelled from the spec: the truncation of the last, partially fitting segment "to the
  remaining budget at a content boundary (not mid-token where avoidable)". The segment is
  cut at the remaining budget; when that cut falls inside a token and there is white space
  before it, the cut moves back to just after that white space.
\<close>

definition truncate_at_boundary :: "nat \<Rightarrow> string \<Rightarrow> string" where
  "truncate_at_boundary rem s =
     (let t = take rem s in
      if length s \<le> rem then s
      else if is_ws (s ! rem) \<or> \<not> list_ex is_ws t then t
      else rev (dropWhile (\<lambda>c. \<not> is_ws c) (rev t)))"

text \<open>
  Modelled from the spec: "select segments greedily by descending score ... until adding
  the next segment would exceed the budget; then truncate the final partially-fitting
  segment to the remaining budget". The segments come in ranking order, each with its
  position in the document.
\<close>

fun greedy :: "nat \<Rightarrow> (nat \<times> string) list \<Rightarrow> (nat \<times> string) list" where
  "greedy rem [] = []"
| "greedy rem ((i, s) # rest) =
     (if length s \<le> rem then (i, s) # greedy (rem - length s) rest
      else [(i, truncate_at_boundary rem s)])"

text \<open>
  Modelled from the spec: \<^verbatim>\<open>select\<close>. A document within the budget is returned unchanged;
  when no segment matches the query the result is the leading slice of the document up to
  the budget; otherwise the segments are ranked by descending score (ties in document
  order), chosen greedily, and put out in document order.
\<close>

definition select :: "selector \<Rightarrow> string \<Rightarrow> string \<Rightarrow> nat \<Rightarrow> string" where
  "select P document q budget =
     (if length document \<le> budget then document
      else (let segs = enumerate 0 (segments P document) in
            if list_all (\<lambda>(i, s). score P q s = 0) segs then take budget document
            else concat (map snd (sort_key fst
                   (greedy budget (sort_key (\<lambda>(i, s). - int (score P q s)) segs))))))"

text \<open>
  An instance for evaluating \<open>select\<close>: the segments are the lines of the document, and the
  score of a segment is 1 when the query occurs in it.
\<close>

fun occurs_in :: "string \<Rightarrow> string \<Rightarrow> bool" where
  "occurs_in q [] = (q = [])"
| "occurs_in q (c # cs) = (take (length q) (c # cs) = q \<or> occurs_in q cs)"

definition example_selector :: selector where
  "example_selector =
     \<lparr>segments = split_on (CHR 0x0A), score = (\<lambda>q s. if occurs_in q s then 1 else 0)\<rparr>"

definition example_document :: string where
  "example_document =
     ''alpha beta'' @ [CHR 0x0A] @ ''gamma delta'' @ [CHR 0x0A] @ ''paris is here'' @ [CHR 0x0A]
     @ ''omega''"

section \<open>A concrete request\<close>

text \<open>
  An instance of the parameters, for evaluating the model: host names are read off urls
  that start with \<^verbatim>\<open>https://\<close>, \<^verbatim>\<open>Number\<close> knows three strings, the selector cuts the
  content at the budget, no ticker is ever detected and the conversion of the earlier turns
  never throws.
\<close>

definition example_externals :: externals where
  "example_externals =
     \<lparr>url_hostname =
        (\<lambda>s. if take 8 s = ''https://''
              then Some (takeWhile (\<lambda>c. c \<noteq> CHR ''/'') (drop 8 s)) else None),
      to_number =
        (\<lambda>s. if s = ''3'' then Finite 3
              else if s = ''0.5'' then Finite (1 / 2)
              else if s = ''-2'' then Finite (- 2) else NaN),
      selectRelevantContent = (\<lambda>c q b. take (nat b) (to_string c)),
      detectCompanyTicker = (\<lambda>q. None),
      convertToModelMessages = (\<lambda>ms. None)\<rparr>"

definition example_item :: "string \<Rightarrow> string \<Rightarrow> jsval" where
  "example_item u c = JObj [(''url'', JStr u), (''title'', JStr (''About '' @ u)), (''content'', JStr c)]"

definition ok_response :: "jsval \<Rightarrow> http" where
  "ok_response j = Response True (Inr j) ''OK''"

text \<open>
  A first question (no earlier message), four web results (the second has its link under
  \<^verbatim>\<open>href\<close>, and one more item has no link at all), a news search that fails, one image, a scrape limit of 3, scrapes that
  give markdown for the first target, fail for the second and give content for the third.
\<close>

definition example_web :: jsval where
  "example_web = JObj [(''results'', JArr
     [example_item ''https://www.a.org/1'' ''Paris is the capital of France.'',
      JObj [(''href'', JStr ''https://b.org/2''), (''summary'', JStr ''s2'')],
      JObj [(''title'', JStr ''no link'')],
      example_item ''https://c.org/3'' ''c3'',
      example_item ''https://d.org/4'' ''c4''])]"

definition example_world :: world where
  "example_world =
     \<lparr>query = ''What is the capital of France?'',
      messages = [],
      general = ok_response example_web,
      news = FetchRejected (new_Error ''fetch failed''),
      images = ok_response (JObj [(''images'', JArr [JObj [(''img_src'', JStr ''https://a.org/p.png'')]])]),
      scrape_limit_env = Some ''3'',
      scrapes =
        (\<lambda>i. if i = 0 then ok_response (JObj [(''data'', JObj [(''markdown'', JStr ''# Paris'')])])
              else if i = 1 then Response False (Inr (JObj [])) ''Payment Required''
              else ok_response (JObj [(''data'', JObj [(''markdown'', JStr []), (''content'', JStr ''full c3'')])])),
      answer_stream = (\<lambda>p. Answered [''Paris'', '' [1]'']),
      followUpResponse = Inr (''What is its population?'' @ [CHR 0x0A] @ '' '' @ [CHR 0x0A] @ ''Why Paris?'')\<rparr>"

text \<open>The sources that normalization makes of \<open>example_web\<close>.\<close>

definition example_source :: "string \<Rightarrow> jsval \<Rightarrow> jsval \<Rightarrow> jsval \<Rightarrow> string \<Rightarrow> string \<Rightarrow> source" where
  "example_source u t d c host site =
     \<lparr>url = JStr u, title = t, description = d, content = c, markdown = JUndefined,
      favicon = JStr (''https://www.google.com/s2/favicons?domain='' @ host @ ''&sz=64''),
      image = JUndefined, siteName = JStr site\<rparr>"

definition example_sources :: "source list" where
  "example_sources =
     [example_source ''https://www.a.org/1'' (JStr ''About https://www.a.org/1'')
        (JStr ''Paris is the capital of France.'') (JStr ''Paris is the capital of France.'')
        ''www.a.org'' ''a.org'',
      example_source ''https://b.org/2'' (JStr ''https://b.org/2'') (JStr ''s2'') JUndefined
        ''b.org'' ''b.org'',
      example_source ''https://c.org/3'' (JStr ''About https://c.org/3'') (JStr ''c3'') (JStr ''c3'')
        ''c.org'' ''c.org'',
      example_source ''https://d.org/4'' (JStr ''About https://d.org/4'') (JStr ''c4'') (JStr ''c4'')
        ''d.org'' ''d.org'']"

text \<open>The bundle that the concrete request emits.\<close>

definition example_bundle :: search_bundle where
  "example_bundle =
     \<lparr>b_sources = enrich 3 (scrapes example_world) example_sources,
      b_newsResults = [],
      b_imageResults =
        [\<lparr>img_url = JStr ''https://a.org/p.png'', img_title = JStr ''Untitled'',
          img_thumbnail = JStr ''https://a.org/p.png'', img_source = JStr ''a.org'',
          img_width = JUndefined, img_height = JUndefined, img_position = JUndefined\<rparr>]\<rparr>"

text \<open>
  The same request with a news search that succeeds and whose results hold \<^verbatim>\<open>null\<close>, and
  a web payload whose results hold a string.
\<close>

definition example_world_null_news :: world where
  "example_world_null_news =
     example_world\<lparr>news := ok_response (JObj [(''results'', JArr [JNull])])\<rparr>"

definition example_web_string_item :: jsval where
  "example_web_string_item = JObj [(''results'', JArr [JStr ''abc''])]"

text \<open>
  The same request as a follow-up: two earlier messages, and a last message that is
  \<^verbatim>\<open>null\<close> (the query then comes from the \<^verbatim>\<open>query\<close> field of the body).
\<close>

definition example_world_followup :: world where
  "example_world_followup =
     example_world\<lparr>messages :=
       [JObj [(''role'', JStr ''user''),
              (''parts'', JArr [JObj [(''type'', JStr ''text''), (''text'', JStr ''Hello'')]])],
        JObj [(''role'', JStr ''assistant''),
              (''parts'', JArr [JObj [(''type'', JStr ''text''), (''text'', JStr ''Hi!'')]])],
        JNull]\<rparr>"

section \<open>Properties of the relevance selector\<close>

lemma length_truncate_at_boundary: "length (truncate_at_boundary rem s) \<le> rem"
proof -
  have "length (rev (dropWhile (\<lambda>c. \<not> is_ws c) (rev (take rem s)))) \<le> length (take rem s)"
    using length_dropWhile_le [of "\<lambda>c. \<not> is_ws c" "rev (take rem s)"] by simp
  then show ?thesis by (simp add: truncate_at_boundary_def Let_def)
qed

lemma greedy_within: "sum_list (map (\<lambda>p. length (snd p)) (greedy rem xs)) \<le> rem"
proof (induction rem xs rule: greedy.induct)
  case (1 rem)
  then show ?case by simp
next
  case (2 rem i s rest)
  show ?case
  proof (cases "length s \<le> rem")
    case True
    with "2.IH" show ?thesis by simp
  next
    case False
    then show ?thesis by (simp add: length_truncate_at_boundary)
  qed
qed

lemma sum_list_insort_key:
  "sum_list (map g (insort_key f x xs)) = g x + sum_list (map g xs)"
  for g :: "'a \<Rightarrow> nat" and f :: "'a \<Rightarrow> 'k::linorder"
  by (induction xs) simp_all

lemma sum_list_sort_key:
  "sum_list (map g (sort_key f xs)) = sum_list (map g xs)"
  for g :: "'a \<Rightarrow> nat" and f :: "'a \<Rightarrow> 'k::linorder"
  by (induction xs) (simp_all add: sum_list_insort_key)

lemma length_concat_snd: "length (concat (map snd ys)) = sum_list (map (\<lambda>p. length (snd p)) ys)"
  by (simp add: length_concat comp_def)

text \<open>
  C2. The selector of the specification is a function of the document, the query and the
  budget; its result has at most budget characters, whichever branch produces it, and when
  the document is longer than the budget and no segment matches the query, the result is
  the leading slice of the document up to the budget.
\<close>

theorem select_within_budget:
  "length (select P document q budget) \<le> budget
   \<and> (budget < length document \<and> (\<forall>s \<in> set (segments P document). score P q s = 0)
      \<longrightarrow> select P document q budget = take budget document)"
proof (intro conjI impI)
  show "length (select P document q budget) \<le> budget"
  proof (cases "length document \<le> budget")
    case True
    then show ?thesis by (simp add: select_def)
  next
    case long: False
    let ?segs = "enumerate 0 (segments P document)"
    show ?thesis
    proof (cases "list_all (\<lambda>(i, s). score P q s = 0) ?segs")
      case True
      with long show ?thesis by (simp add: select_def)
    next
      case False
      let ?chosen = "greedy budget (sort_key (\<lambda>(i, s). - int (score P q s)) ?segs)"
      have "length (concat (map snd (sort_key fst ?chosen)))
          = sum_list (map (\<lambda>p. length (snd p)) ?chosen)"
        by (simp only: length_concat_snd sum_list_sort_key)
      also have "\<dots> \<le> budget" by (rule greedy_within)
      finally have "length (concat (map snd (sort_key fst ?chosen))) \<le> budget" .
      with long False show ?thesis by (simp add: select_def Let_def)
    qed
  qed
next
  assume a: "budget < length document \<and> (\<forall>s \<in> set (segments P document). score P q s = 0)"
  then have "list_all (\<lambda>(i, s). score P q s = 0) (enumerate 0 (segments P document))"
    by (auto simp: list_all_iff in_set_enumerate_eq)
  with a show "select P document q budget = take budget document"
    by (simp add: select_def)
qed

text \<open>
  A document of four lines and a budget of 20: the line that matches the query is chosen
  first, the first line is cut to the rest of the budget at a word boundary, and both
  are put out in document order; a query that matches nothing gives the first 20
  characters; with budget 0 the result is empty.
\<close>

theorem select_within_budget_witness:
  "select example_selector example_document ''paris'' 20 = ''alpha paris is here''
   \<and> length (select example_selector example_document ''paris'' 20) \<le> 20
   \<and> select example_selector example_document ''zebra'' 20 = take 20 example_document
   \<and> select example_selector example_document ''paris'' 0 = []"
proof -
  have "select example_selector example_document ''paris'' 20 = ''alpha paris is here''"
    by code_simp
  moreover have "20 < length example_document
      \<and> (\<forall>s \<in> set (segments example_selector example_document).
            score example_selector ''zebra'' s = 0)"
    by (simp add: example_document_def example_selector_def)
  ultimately show ?thesis
    using select_within_budget [of example_selector example_document "''paris''" 20]
      select_within_budget [of example_selector example_document "''zebra''" 20]
      select_within_budget [of example_selector example_document "''paris''" 0]
    by simp
qed

section \<open>Properties of enrichment\<close>

lemma strict_eq_at_refl: "strict_eq_at i a i a"
  by (simp add: strict_eq_at_def)

lemma strict_eq_at_eq: "strict_eq_at i a j b \<Longrightarrow> a = b"
  by (simp add: strict_eq_at_def split: if_splits)

lemma find_url_Some:
  "find_url k i u ss = Some j \<Longrightarrow>
     k \<le> j \<and> j < k + length ss \<and> strict_eq_at j (url (ss ! (j - k))) i u"
proof (induction ss arbitrary: k)
  case Nil
  then show ?case by simp
next
  case (Cons s ss)
  show ?case
  proof (cases "strict_eq_at k (url s) i u")
    case True
    with Cons.prems show ?thesis by simp
  next
    case False
    with Cons.prems have "find_url (Suc k) i u ss = Some j" by simp
    from Cons.IH [OF this] show ?thesis by (simp add: Suc_diff_le)
  qed
qed

lemma find_url_first:
  "k \<le> i \<Longrightarrow> i < k + length ss \<Longrightarrow> u = url (ss ! (i - k)) \<Longrightarrow>
     \<exists>j. find_url k i u ss = Some j \<and> j \<le> i"
proof (induction ss arbitrary: k)
  case Nil
  then show ?case by simp
next
  case (Cons s ss)
  show ?case
  proof (cases "strict_eq_at k (url s) i u")
    case True
    with Cons.prems show ?thesis by simp
  next
    case False
    have "k \<noteq> i"
    proof
      assume "k = i"
      with Cons.prems have "u = url s" by simp
      with \<open>k = i\<close> False show False by (simp add: strict_eq_at_refl)
    qed
    with Cons.prems have "Suc k \<le> i" "i < Suc k + length ss" "u = url (ss ! (i - Suc k))"
      by (simp_all add: nth_Cons split: nat.splits) (metis Suc_diff_Suc less_le nat.inject)
    from Cons.IH [OF this] False show ?thesis by simp
  qed
qed

lemma length_merge_one: "length (merge_one i u r srcs) = length srcs"
  by (simp add: merge_one_def split: settled.splits option.splits)

lemma merge_one_frame:
  "j < length srcs \<Longrightarrow>
     url (merge_one i u r srcs ! j) = url (srcs ! j)
   \<and> title (merge_one i u r srcs ! j) = title (srcs ! j)
   \<and> description (merge_one i u r srcs ! j) = description (srcs ! j)
   \<and> favicon (merge_one i u r srcs ! j) = favicon (srcs ! j)
   \<and> image (merge_one i u r srcs ! j) = image (srcs ! j)
   \<and> siteName (merge_one i u r srcs ! j) = siteName (srcs ! j)"
proof (cases r)
  case Rejected
  then show ?thesis by (simp add: merge_one_def)
next
  case (Fulfilled md ct)
  show ?thesis
  proof (cases "find_url 0 i u srcs")
    case None
    with Fulfilled show ?thesis by (simp add: merge_one_def)
  next
    case (Some m)
    from find_url_Some [OF Some] have "m < length srcs" by simp
    with Fulfilled Some show ?thesis
      by (cases "m = j") (simp_all add: merge_one_def)
  qed
qed

lemma merge_one_beyond:
  assumes "i < length srcs" "u = url (srcs ! i)" "i < n"
  shows "merge_one i u r srcs ! n = srcs ! n"
proof (cases r)
  case Rejected
  then show ?thesis by (simp add: merge_one_def)
next
  case (Fulfilled md ct)
  from find_url_first [of 0 i srcs u] assms
  obtain j where j: "find_url 0 i u srcs = Some j" "j \<le> i" by auto
  with assms have "j \<noteq> n" by simp
  with Fulfilled j show ?thesis by (simp add: merge_one_def)
qed

lemma merge_one_markdown:
  assumes "j < length srcs"
  shows "markdown (merge_one i u r srcs ! j) = markdown (srcs ! j)
       \<or> (\<exists>md ct. r = Fulfilled md ct \<and> truthy md \<and> markdown (merge_one i u r srcs ! j) = md
              \<and> url (srcs ! j) = u)"
proof (cases r)
  case Rejected
  then show ?thesis by (simp add: merge_one_def)
next
  case (Fulfilled md ct)
  show ?thesis
  proof (cases "find_url 0 i u srcs")
    case None
    with Fulfilled show ?thesis by (simp add: merge_one_def)
  next
    case (Some m)
    from find_url_Some [OF Some] have m: "m < length srcs" "url (srcs ! m) = u"
      by (auto dest: strict_eq_at_eq)
    show ?thesis
    proof (cases "m = j")
      case True
      with Fulfilled Some m assms show ?thesis
        by (simp add: merge_one_def js_or_def)
    next
      case False
      with Fulfilled Some show ?thesis by (simp add: merge_one_def)
    qed
  qed
qed

lemma merge_one_content:
  assumes "j < length srcs"
  shows "content (merge_one i u r srcs ! j) = content (srcs ! j)
       \<or> (\<exists>md ct. r = Fulfilled md ct \<and> truthy ct \<and> content (merge_one i u r srcs ! j) = ct
              \<and> url (srcs ! j) = u)"
proof (cases r)
  case Rejected
  then show ?thesis by (simp add: merge_one_def)
next
  case (Fulfilled md ct)
  show ?thesis
  proof (cases "find_url 0 i u srcs")
    case None
    with Fulfilled show ?thesis by (simp add: merge_one_def)
  next
    case (Some m)
    from find_url_Some [OF Some] have m: "m < length srcs" "url (srcs ! m) = u"
      by (auto dest: strict_eq_at_eq)
    show ?thesis
    proof (cases "m = j")
      case True
      with Fulfilled Some m assms show ?thesis
        by (simp add: merge_one_def js_or_def)
    next
      case False
      with Fulfilled Some show ?thesis by (simp add: merge_one_def)
    qed
  qed
qed

lemma length_merge_scraped: "length (merge_scraped i rs srcs) = length srcs"
  by (induction i rs srcs rule: merge_scraped.induct) (simp_all add: length_merge_one)

lemma merge_scraped_frame:
  "j < length srcs \<Longrightarrow>
     url (merge_scraped i rs srcs ! j) = url (srcs ! j)
   \<and> title (merge_scraped i rs srcs ! j) = title (srcs ! j)
   \<and> description (merge_scraped i rs srcs ! j) = description (srcs ! j)
   \<and> favicon (merge_scraped i rs srcs ! j) = favicon (srcs ! j)
   \<and> image (merge_scraped i rs srcs ! j) = image (srcs ! j)
   \<and> siteName (merge_scraped i rs srcs ! j) = siteName (srcs ! j)"
proof (induction i rs srcs rule: merge_scraped.induct)
  case (1 i srcs)
  then show ?case by simp
next
  case (2 i u r rs srcs)
  then have "j < length (merge_one i u r srcs)" by (simp add: length_merge_one)
  from "2.IH" [OF this] merge_one_frame [OF "2.prems", of i u r] show ?case by simp
qed

lemma merge_scraped_beyond:
  assumes "\<forall>k < length rs. i + k < length srcs \<and> fst (rs ! k) = url (srcs ! (i + k))"
    and "i + length rs \<le> n"
  shows "merge_scraped i rs srcs ! n = srcs ! n"
  using assms
proof (induction i rs srcs rule: merge_scraped.induct)
  case (1 i srcs)
  then show ?case by simp
next
  case (2 i u r rs srcs)
  from "2.prems"(1) have h0: "i < length srcs" "u = url (srcs ! i)" by force+
  have "\<forall>k < length rs. Suc i + k < length (merge_one i u r srcs)
           \<and> fst (rs ! k) = url (merge_one i u r srcs ! (Suc i + k))"
  proof (intro allI impI)
    fix k assume k: "k < length rs"
    with "2.prems"(1) have "i + Suc k < length srcs \<and> fst (((u, r) # rs) ! Suc k) = url (srcs ! (i + Suc k))"
      by (metis Suc_less_eq length_Cons)
    then show "Suc i + k < length (merge_one i u r srcs)
           \<and> fst (rs ! k) = url (merge_one i u r srcs ! (Suc i + k))"
      using merge_one_frame [of "Suc i + k" srcs i u r] by (simp add: length_merge_one)
  qed
  moreover from "2.prems"(2) have "Suc i + length rs \<le> n" by simp
  ultimately have "merge_scraped (Suc i) rs (merge_one i u r srcs) ! n = merge_one i u r srcs ! n"
    by (rule "2.IH")
  moreover from "2.prems"(2) have "i < n" by simp
  ultimately show ?case using merge_one_beyond [OF h0] by simp
qed

lemma merge_scraped_markdown:
  "j < length srcs \<Longrightarrow>
     markdown (merge_scraped i rs srcs ! j) = markdown (srcs ! j)
   \<or> (\<exists>k < length rs. \<exists>md ct. rs ! k = (url (srcs ! j), Fulfilled md ct) \<and> truthy md
          \<and> markdown (merge_scraped i rs srcs ! j) = md)"
proof (induction i rs srcs rule: merge_scraped.induct)
  case (1 i srcs)
  then show ?case by simp
next
  case (2 i u r rs srcs)
  let ?m = "merge_one i u r srcs"
  let ?res = "merge_scraped (Suc i) rs ?m"
  from "2.prems" have j: "j < length ?m" by (simp add: length_merge_one)
  have u: "url (?m ! j) = url (srcs ! j)" using merge_one_frame [OF "2.prems"] by simp
  from "2.IH" [OF j] consider
      (same) "markdown (?res ! j) = markdown (?m ! j)"
    | (later) k md ct where "k < length rs" "rs ! k = (url (?m ! j), Fulfilled md ct)" "truthy md"
        "markdown (?res ! j) = md"
    by blast
  then show ?case
  proof cases
    case same
    from merge_one_markdown [OF "2.prems", of i u r] show ?thesis
    proof
      assume "markdown (?m ! j) = markdown (srcs ! j)"
      with same show ?thesis by simp
    next
      assume "\<exists>md ct. r = Fulfilled md ct \<and> truthy md \<and> markdown (?m ! j) = md \<and> url (srcs ! j) = u"
      then obtain md ct where "r = Fulfilled md ct" "truthy md" "markdown (?m ! j) = md" "url (srcs ! j) = u"
        by blast
      with same have "((u, r) # rs) ! 0 = (url (srcs ! j), Fulfilled md ct) \<and> truthy md
          \<and> markdown (merge_scraped i ((u, r) # rs) srcs ! j) = md" by simp
      then show ?thesis by (intro disjI2 exI [of _ 0]) auto
    qed
  next
    case later
    with u have "((u, r) # rs) ! Suc k = (url (srcs ! j), Fulfilled md ct) \<and> truthy md
          \<and> markdown (merge_scraped i ((u, r) # rs) srcs ! j) = md" by simp
    with later(1) show ?thesis by (intro disjI2 exI [of _ "Suc k"]) auto
  qed
qed
lemma merge_scraped_content:
  "j < length srcs \<Longrightarrow>
     content (merge_scraped i rs srcs ! j) = content (srcs ! j)
   \<or> (\<exists>k < length rs. \<exists>md ct. rs ! k = (url (srcs ! j), Fulfilled md ct) \<and> truthy ct
          \<and> content (merge_scraped i rs srcs ! j) = ct)"
proof (induction i rs srcs rule: merge_scraped.induct)
  case (1 i srcs)
  then show ?case by simp
next
  case (2 i u r rs srcs)
  let ?m = "merge_one i u r srcs"
  let ?res = "merge_scraped (Suc i) rs ?m"
  from "2.prems" have j: "j < length ?m" by (simp add: length_merge_one)
  have u: "url (?m ! j) = url (srcs ! j)" using merge_one_frame [OF "2.prems"] by simp
  from "2.IH" [OF j] consider
      (same) "content (?res ! j) = content (?m ! j)"
    | (later) k md ct where "k < length rs" "rs ! k = (url (?m ! j), Fulfilled md ct)" "truthy ct"
        "content (?res ! j) = ct"
    by blast
  then show ?case
  proof cases
    case same
    from merge_one_content [OF "2.prems", of i u r] show ?thesis
    proof
      assume "content (?m ! j) = content (srcs ! j)"
      with same show ?thesis by simp
    next
      assume "\<exists>md ct. r = Fulfilled md ct \<and> truthy ct \<and> content (?m ! j) = ct \<and> url (srcs ! j) = u"
      then obtain md ct where "r = Fulfilled md ct" "truthy ct" "content (?m ! j) = ct" "url (srcs ! j) = u"
        by blast
      with same have "((u, r) # rs) ! 0 = (url (srcs ! j), Fulfilled md ct) \<and> truthy ct
          \<and> content (merge_scraped i ((u, r) # rs) srcs ! j) = ct" by simp
      then show ?thesis by (intro disjI2 exI [of _ 0]) auto
    qed
  next
    case later
    with u have "((u, r) # rs) ! Suc k = (url (srcs ! j), Fulfilled md ct) \<and> truthy ct
          \<and> content (merge_scraped i ((u, r) # rs) srcs ! j) = ct" by simp
    with later(1) show ?thesis by (intro disjI2 exI [of _ "Suc k"]) auto
  qed
qed

lemma length_scraped: "length (scraped R ts) = length ts"
  by (simp add: scraped_def)

lemma nth_scraped: "k < length ts \<Longrightarrow> scraped R ts ! k = (url (ts ! k), scrape_one (R k))"
  by (simp add: scraped_def nth_enumerate_eq)

lemma length_targets: "length (targets limit srcs) = min (nat (max 1 limit)) (length srcs)"
  by (simp add: targets_def)

lemma nth_targets: "k < length (targets limit srcs) \<Longrightarrow> targets limit srcs ! k = srcs ! k"
  by (simp add: targets_def)

lemma length_enrich: "length (enrich limit R srcs) = length srcs"
  by (simp add: enrich_def length_merge_scraped)

lemma enrich_frame:
  "j < length srcs \<Longrightarrow>
     url (enrich limit R srcs ! j) = url (srcs ! j)
   \<and> title (enrich limit R srcs ! j) = title (srcs ! j)
   \<and> description (enrich limit R srcs ! j) = description (srcs ! j)
   \<and> favicon (enrich limit R srcs ! j) = favicon (srcs ! j)
   \<and> image (enrich limit R srcs ! j) = image (srcs ! j)
   \<and> siteName (enrich limit R srcs ! j) = siteName (srcs ! j)"
  unfolding enrich_def by (rule merge_scraped_frame)

lemma map_url_enrich: "map url (enrich limit R srcs) = map url srcs"
  by (rule nth_equalityI) (simp_all add: length_enrich enrich_frame)

lemma enrich_beyond:
  assumes "nat (max 1 limit) \<le> j"
  shows "enrich limit R srcs ! j = srcs ! j"
  unfolding enrich_def
proof (rule merge_scraped_beyond)
  show "\<forall>k < length (scraped R (targets limit srcs)).
          0 + k < length srcs \<and> fst (scraped R (targets limit srcs) ! k) = url (srcs ! (0 + k))"
    by (simp add: length_scraped nth_scraped nth_targets length_targets)
  show "0 + length (scraped R (targets limit srcs)) \<le> j"
    using assms by (simp add: length_scraped length_targets)
qed

lemma enrich_markdown:
  assumes "j < length srcs"
  shows "markdown (enrich limit R srcs ! j) = markdown (srcs ! j)
       \<or> (\<exists>k < length (targets limit srcs). \<exists>md ct.
             url (srcs ! k) = url (srcs ! j) \<and> scrape_one (R k) = Fulfilled md ct \<and> truthy md
             \<and> markdown (enrich limit R srcs ! j) = md)"
proof -
  let ?rs = "scraped R (targets limit srcs)"
  from merge_scraped_markdown [OF assms, of 0 ?rs] show ?thesis
  proof
    assume "markdown (merge_scraped 0 ?rs srcs ! j) = markdown (srcs ! j)"
    then show ?thesis by (simp add: enrich_def)
  next
    assume "\<exists>k<length ?rs. \<exists>md ct. ?rs ! k = (url (srcs ! j), Fulfilled md ct) \<and> truthy md
              \<and> markdown (merge_scraped 0 ?rs srcs ! j) = md"
    then obtain k md ct where k: "k < length (targets limit srcs)"
      and e: "?rs ! k = (url (srcs ! j), Fulfilled md ct)" "truthy md"
        "markdown (enrich limit R srcs ! j) = md"
      by (auto simp: length_scraped enrich_def)
    from k e(1) have "url (srcs ! k) = url (srcs ! j)" "scrape_one (R k) = Fulfilled md ct"
      by (simp_all add: nth_scraped nth_targets)
    with k e show ?thesis by blast
  qed
qed

lemma enrich_content:
  assumes "j < length srcs"
  shows "content (enrich limit R srcs ! j) = content (srcs ! j)
       \<or> (\<exists>k < length (targets limit srcs). \<exists>md ct.
             url (srcs ! k) = url (srcs ! j) \<and> scrape_one (R k) = Fulfilled md ct \<and> truthy ct
             \<and> content (enrich limit R srcs ! j) = ct)"
proof -
  let ?rs = "scraped R (targets limit srcs)"
  from merge_scraped_content [OF assms, of 0 ?rs] show ?thesis
  proof
    assume "content (merge_scraped 0 ?rs srcs ! j) = content (srcs ! j)"
    then show ?thesis by (simp add: enrich_def)
  next
    assume "\<exists>k<length ?rs. \<exists>md ct. ?rs ! k = (url (srcs ! j), Fulfilled md ct) \<and> truthy ct
              \<and> content (merge_scraped 0 ?rs srcs ! j) = ct"
    then obtain k md ct where k: "k < length (targets limit srcs)"
      and e: "?rs ! k = (url (srcs ! j), Fulfilled md ct)" "truthy ct"
        "content (enrich limit R srcs ! j) = ct"
      by (auto simp: length_scraped enrich_def)
    from k e(1) have "url (srcs ! k) = url (srcs ! j)" "scrape_one (R k) = Fulfilled md ct"
      by (simp_all add: nth_scraped nth_targets)
    with k e show ?thesis by blast
  qed
qed

lemma source_frame_eq:
  fixes s s' :: source
  assumes "url s' = url s" "title s' = title s" "description s' = description s"
    "favicon s' = favicon s" "image s' = image s" "siteName s' = siteName s"
  shows "s'\<lparr>markdown := markdown s, content := content s\<rparr> = s"
  using assms by (cases s, cases s') simp

lemma scrapeLimit_cases:
  "nat (max 1 (scrapeLimit p)) =
     (case p of
        Finite q \<Rightarrow> if q \<ge> 1 then nat \<lfloor>q\<rfloor> else if q > 0 then 1 else 5
      | _ \<Rightarrow> 5)"
proof (cases p)
  case (Finite q)
  show ?thesis
  proof (cases "q \<ge> 1")
    case True
    then have "1 \<le> \<lfloor>q\<rfloor>" by (simp add: le_floor_iff)
    with True Finite show ?thesis by (simp add: scrapeLimit_def max_def)
  next
    case False
    then have "\<lfloor>q\<rfloor> < 1" by (simp add: floor_less_iff)
    with False Finite show ?thesis by (simp add: scrapeLimit_def max_def)
  qed
qed (simp_all add: scrapeLimit_def)

text \<open>
  C5. The effective limit \<open>L\<close> of enrichment is a positive integer: 5 when the variable is
  unset or does not give a finite positive number, the integer part of the number when
  that is at least 1, and 1 for a positive number below 1. The scrapes are made for the
  first \<open>L\<close> sources, in order, and every source at a position from \<open>L\<close> on is left as it
  was, its \<^verbatim>\<open>markdown\<close> and \<^verbatim>\<open>content\<close> included.
\<close>

theorem enrichment_limit:
  "let limit = scrapeLimit (parsedLimit X env); L = nat (max 1 limit) in
     1 \<le> L
   \<and> L = (case env of
            None \<Rightarrow> 5
          | Some v \<Rightarrow>
              (case to_number X v of
                 Finite q \<Rightarrow> if q \<ge> 1 then nat \<lfloor>q\<rfloor> else if q > 0 then 1 else 5
               | _ \<Rightarrow> 5))
   \<and> map fst (scraped R (targets limit srcs)) = map url (take L srcs)
   \<and> (\<forall>j. L \<le> j \<and> j < length srcs \<longrightarrow> enrich limit R srcs ! j = srcs ! j)"
proof -
  define limit where "limit = scrapeLimit (parsedLimit X env)"
  define L where "L = nat (max 1 limit)"
  have "1 \<le> L" by (simp add: L_def)
  moreover have "L = (case env of
            None \<Rightarrow> 5
          | Some v \<Rightarrow>
              (case to_number X v of
                 Finite q \<Rightarrow> if q \<ge> 1 then nat \<lfloor>q\<rfloor> else if q > 0 then 1 else 5
               | _ \<Rightarrow> 5))"
    unfolding L_def limit_def scrapeLimit_cases
    by (cases env) (simp_all add: parsedLimit_def)
  moreover have "map fst (scraped R (targets limit srcs)) = map url (take L srcs)"
    by (rule nth_equalityI)
       (simp_all add: length_scraped nth_scraped length_targets targets_def L_def)
  moreover have "\<forall>j. L \<le> j \<and> j < length srcs \<longrightarrow> enrich limit R srcs ! j = srcs ! j"
    by (simp add: L_def enrich_beyond)
  ultimately show ?thesis by (simp add: limit_def L_def Let_def)
qed

text \<open>
  C6. Whatever the outcomes of the scrapes, enrichment keeps the length of the source list,
  the order and the url of every element, and every field other than \<^verbatim>\<open>markdown\<close> and
  \<^verbatim>\<open>content\<close>. The \<^verbatim>\<open>markdown\<close> of a source is either what it was or the truthy (present
  and non-empty) \<^verbatim>\<open>markdown\<close> of a fulfilled scrape of a target with the same url; the same
  holds for \<^verbatim>\<open>content\<close>.
\<close>

theorem enrichment_frame:
  "length (enrich limit R srcs) = length srcs
   \<and> map url (enrich limit R srcs) = map url srcs
   \<and> (\<forall>j < length srcs.
        (enrich limit R srcs ! j)\<lparr>markdown := markdown (srcs ! j), content := content (srcs ! j)\<rparr>
          = srcs ! j
        \<and> (markdown (enrich limit R srcs ! j) = markdown (srcs ! j)
           \<or> (\<exists>k < length (targets limit srcs). \<exists>md ct.
                 url (srcs ! k) = url (srcs ! j) \<and> scrape_one (R k) = Fulfilled md ct
                 \<and> truthy md \<and> markdown (enrich limit R srcs ! j) = md))
        \<and> (content (enrich limit R srcs ! j) = content (srcs ! j)
           \<or> (\<exists>k < length (targets limit srcs). \<exists>md ct.
                 url (srcs ! k) = url (srcs ! j) \<and> scrape_one (R k) = Fulfilled md ct
                 \<and> truthy ct \<and> content (enrich limit R srcs ! j) = ct)))"
proof (intro conjI allI impI)
  show "length (enrich limit R srcs) = length srcs" by (rule length_enrich)
  show "map url (enrich limit R srcs) = map url srcs" by (rule map_url_enrich)
next
  fix j assume j: "j < length srcs"
  from enrich_frame [OF j, of limit R]
  show "(enrich limit R srcs ! j)\<lparr>markdown := markdown (srcs ! j), content := content (srcs ! j)\<rparr>
          = srcs ! j"
    by (intro source_frame_eq) simp_all
  show "markdown (enrich limit R srcs ! j) = markdown (srcs ! j)
           \<or> (\<exists>k < length (targets limit srcs). \<exists>md ct.
                 url (srcs ! k) = url (srcs ! j) \<and> scrape_one (R k) = Fulfilled md ct
                 \<and> truthy md \<and> markdown (enrich limit R srcs ! j) = md)"
    by (rule enrich_markdown [OF j])
  show "content (enrich limit R srcs ! j) = content (srcs ! j)
           \<or> (\<exists>k < length (targets limit srcs). \<exists>md ct.
                 url (srcs ! k) = url (srcs ! j) \<and> scrape_one (R k) = Fulfilled md ct
                 \<and> truthy ct \<and> content (enrich limit R srcs ! j) = ct)"
    by (rule enrich_content [OF j])
qed

section \<open>Properties of the event stream\<close>

lemma events_write [simp]: "events (writer_write ev st) = events st @ [ev]"
  and sources_write [simp]: "sources (writer_write ev st) = sources st"
  and newsResults_write [simp]: "newsResults (writer_write ev st) = newsResults st"
  and imageResults_write [simp]: "imageResults (writer_write ev st) = imageResults st"
  and context_write [simp]: "context_str (writer_write ev st) = context_str st"
  by (simp_all add: writer_write_def)

lemma filter_TextDelta [simp]:
  "filter is_Sources (map TextDelta ds) = []"
  "filter is_Error_event (map TextDelta ds) = []"
  "filter is_TextDelta (map TextDelta ds) = map TextDelta ds"
  by (induction ds) simp_all

lemma is_error_event [simp]:
  "is_Error_event (error_event e)" "\<not> is_Sources (error_event e)" "\<not> is_TextDelta (error_event e)"
  by (simp_all add: error_event_def Let_def)


lemma enrich_stage_vars:
  "sources (enrich_stage X w st) =
     (if sources st = [] then []
      else enrich (scrapeLimit (parsedLimit X (scrape_limit_env w))) (scrapes w) (sources st))"
  "newsResults (enrich_stage X w st) = newsResults st"
  "imageResults (enrich_stage X w st) = imageResults st"
  "context_str (enrich_stage X w st) = context_str st"
  by (simp_all add: enrich_stage_def Let_def)

lemma enrich_stage_events:
  "filter is_Sources (events (enrich_stage X w st)) =
     filter is_Sources (events st) @ [Sources (current_bundle (enrich_stage X w st))]"
  "filter is_Error_event (events (enrich_stage X w st)) = filter is_Error_event (events st)"
  "filter is_TextDelta (events (enrich_stage X w st)) = filter is_TextDelta (events st)"
  by (simp_all add: enrich_stage_def Let_def current_bundle_def)

lemma context_stage_vars:
  "sources (context_stage X w st) = sources st"
  "newsResults (context_stage X w st) = newsResults st"
  "imageResults (context_stage X w st) = imageResults st"
  "context_str (context_stage X w st) = build_context X (query w) (sources st)"
  by (simp_all add: context_stage_def Let_def split: option.splits)

lemma context_stage_events:
  "filter is_Sources (events (context_stage X w st)) = filter is_Sources (events st)"
  "filter is_Error_event (events (context_stage X w st)) = filter is_Error_event (events st)"
  "filter is_TextDelta (events (context_stage X w st)) = filter is_TextDelta (events st)"
  by (simp_all add: context_stage_def Let_def split: option.splits)

lemma followup_stage_vars:
  "sources (followup_stage w st) = sources st"
  "newsResults (followup_stage w st) = newsResults st"
  "imageResults (followup_stage w st) = imageResults st"
  "context_str (followup_stage w st) = context_str st"
  "filter is_Sources (events (followup_stage w st)) = filter is_Sources (events st)"
  "filter is_Error_event (events (followup_stage w st)) = filter is_Error_event (events st)"
  "filter is_TextDelta (events (followup_stage w st)) = filter is_TextDelta (events st)"
  by (simp_all add: followup_stage_def split: sum.splits)

lemma answer_stage_vars:
  "sources (fst (answer_stage X w st)) = sources st"
  "newsResults (fst (answer_stage X w st)) = newsResults st"
  "imageResults (fst (answer_stage X w st)) = imageResults st"
  "context_str (fst (answer_stage X w st)) = context_str st"
  "filter is_Sources (events (fst (answer_stage X w st))) = filter is_Sources (events st)"
  "filter is_Error_event (events (fst (answer_stage X w st))) = filter is_Error_event (events st)"
  by (simp_all add: answer_stage_def followup_stage_vars split: answer.splits option.splits sum.splits)

text \<open>The run of a request whose searches and normalization do not throw.\<close>

lemma try_block_normalized:
  assumes "search_all (general w) (news w) (images w) = Inr (webData, newsData, imagesData)"
    and "normalize_web X (webResults_of webData) = Inr srcs"
    and "normalize_news X (newsSource_of newsData) = Inr ns"
    and "normalize_images X (imageSource_of imagesData) = Inr ims"
  shows "try_block X w st0 =
     answer_stage X w (context_stage X w (enrich_stage X w
       ((writer_write (Status ''status-2'' ''Searching for relevant sources...'')
          (writer_write (Status ''status-1'' ''Starting search...'') st0))
        \<lparr>sources := srcs, newsResults := ns, imageResults := ims\<rparr>)))"
  using assms by (simp add: try_block_def Let_def)

lemma execute_events:
  "events (execute X w) =
     (case try_block X w \<lparr>sources = [], newsResults = [], imageResults = [], context_str = [],
                           events = []\<rparr> of
        (st, None) \<Rightarrow> events st
      | (st, Some e) \<Rightarrow> events st @ [error_event e])"
  by (simp add: execute_def split: prod.splits option.splits)

lemma execute_vars:
  "sources (execute X w) = sources (fst (try_block X w \<lparr>sources = [], newsResults = [], imageResults = [], context_str = [], events = []\<rparr>))"
  "context_str (execute X w) = context_str (fst (try_block X w \<lparr>sources = [], newsResults = [], imageResults = [], context_str = [], events = []\<rparr>))"
  by (simp_all add: execute_def split: prod.splits option.splits)

lemma execute_normalized_Sources:
  assumes "search_all (general w) (news w) (images w) = Inr (webData, newsData, imagesData)"
    and "normalize_web X (webResults_of webData) = Inr srcs"
    and "normalize_news X (newsSource_of newsData) = Inr ns"
    and "normalize_images X (imageSource_of imagesData) = Inr ims"
  shows "filter is_Sources (events (execute X w)) =
     [Sources \<lparr>b_sources =
                 (if srcs = [] then []
                  else enrich (scrapeLimit (parsedLimit X (scrape_limit_env w))) (scrapes w) srcs),
               b_newsResults = ns, b_imageResults = ims\<rparr>]"
    and "sources (execute X w) =
           (if srcs = [] then []
            else enrich (scrapeLimit (parsedLimit X (scrape_limit_env w))) (scrapes w) srcs)"
    and "context_str (execute X w) = build_context X (query w) (sources (execute X w))"
proof -
  let ?init = "\<lparr>sources = [], newsResults = [], imageResults = [], context_str = [], events = []\<rparr>"
  let ?norm = "(writer_write (Status ''status-2'' ''Searching for relevant sources...'')
          (writer_write (Status ''status-1'' ''Starting search...'') ?init))
        \<lparr>sources := srcs, newsResults := ns, imageResults := ims\<rparr>"
  let ?r = "answer_stage X w (context_stage X w (enrich_stage X w ?norm))"
  have tb: "try_block X w ?init = ?r" by (rule try_block_normalized [OF assms])
  have ev: "events (execute X w) =
      (case snd ?r of None \<Rightarrow> events (fst ?r) | Some e \<Rightarrow> events (fst ?r) @ [error_event e])"
    unfolding execute_events tb by (simp split: prod.splits option.splits)
  have "filter is_Sources (events (execute X w)) = filter is_Sources (events (fst ?r))"
    unfolding ev by (simp split: option.splits)
  also have "\<dots> = [Sources (current_bundle (enrich_stage X w ?norm))]"
    by (simp add: answer_stage_vars context_stage_events enrich_stage_events writer_write_def)
  finally show "filter is_Sources (events (execute X w)) =
     [Sources \<lparr>b_sources =
                 (if srcs = [] then []
                  else enrich (scrapeLimit (parsedLimit X (scrape_limit_env w))) (scrapes w) srcs),
               b_newsResults = ns, b_imageResults = ims\<rparr>]"
    by (simp add: current_bundle_def enrich_stage_vars)
  show s: "sources (execute X w) =
           (if srcs = [] then []
            else enrich (scrapeLimit (parsedLimit X (scrape_limit_env w))) (scrapes w) srcs)"
    unfolding execute_vars tb
    by (simp add: answer_stage_vars context_stage_vars enrich_stage_vars)
  show "context_str (execute X w) = build_context X (query w) (sources (execute X w))"
    unfolding s unfolding execute_vars tb
    by (simp add: answer_stage_vars context_stage_vars enrich_stage_vars)
qed

lemma answer_stage_prefix: "\<exists>rest. events (fst (answer_stage X w st)) = events st @ rest \<and> filter is_Sources rest = []"
  by (auto simp: answer_stage_def followup_stage_def split: answer.splits sum.splits option.splits)

lemma context_stage_prefix: "\<exists>rest. events (context_stage X w st) = events st @ rest \<and> filter is_Sources rest = []"
  by (auto simp: context_stage_def Let_def split: option.splits)

lemma enrich_stage_prefix:
  "events (enrich_stage X w st) =
     events st @ (if sources st = [] then [] else [Status ''status-3a'' ''Fetching full article content...''])
     @ [Sources (current_bundle (enrich_stage X w st))]"
  by (simp add: enrich_stage_def Let_def current_bundle_def)

lemma execute_general_throws:
  assumes "performSourceSearch (general w) = Inl e"
  shows "execute X w =
     \<lparr>sources = [], newsResults = [], imageResults = [], context_str = [],
      events = [Status ''status-1'' ''Starting search...'',
                Status ''status-2'' ''Searching for relevant sources...'', error_event e]\<rparr>"
  using assms by (simp add: execute_def try_block_def search_all_def writer_write_def)

lemma error_event_message:
  assumes "carries_message e"
  shows "\<exists>d. error_event e = Error d \<and> e_error d \<noteq> []"
  using assms
  by (auto simp: carries_message_def error_event_def Let_def errorResponses_def
           split: option.splits if_splits)

lemma search_error_carries_message:
  assumes "performSourceSearch h = Inl e" "errors_carry_message h"
  shows "carries_message e"
proof (cases h)
  case (FetchRejected e')
  with assms show ?thesis by (simp add: performSourceSearch_def)
next
  case (Response ok body t)
  show ?thesis
  proof (cases ok)
    case True
    with Response assms show ?thesis
      by (cases body) (simp_all add: performSourceSearch_def)
  next
    case False
    with Response assms(1) have "is_Error e \<and> message e \<noteq> []"
      by (auto simp: performSourceSearch_def Let_def get_def type_error_def new_Error_def
               split: sum.splits if_splits)
    then show ?thesis by (simp add: carries_message_def)
  qed
qed

text \<open>
  C3. When the general search throws \<open>e\<close> (the errors of the runtime carrying a message),
  the request ends with the two status parts it had written and exactly one
  \<^verbatim>\<open>data-error\<close> part, whose \<^verbatim>\<open>error\<close> field is not empty; no \<^verbatim>\<open>data-sources\<close> part and no
  text delta is written, and \<^verbatim>\<open>sources\<close>, \<^verbatim>\<open>newsResults\<close>, \<^verbatim>\<open>imageResults\<close> and \<^verbatim>\<open>context\<close>
  keep their initial values: no later stage has run.
\<close>

theorem general_failure_stream:
  assumes "performSourceSearch (general w) = Inl e"
    and "errors_carry_message (general w)"
  shows "execute X w =
           \<lparr>sources = [], newsResults = [], imageResults = [], context_str = [],
            events = [Status ''status-1'' ''Starting search...'',
                      Status ''status-2'' ''Searching for relevant sources...'', error_event e]\<rparr>
       \<and> filter is_Error_event (events (execute X w)) = [error_event e]
       \<and> (\<exists>d. error_event e = Error d \<and> e_error d \<noteq> [])
       \<and> filter is_Sources (events (execute X w)) = []
       \<and> filter is_TextDelta (events (execute X w)) = []"
proof (intro conjI)
  show "execute X w =
           \<lparr>sources = [], newsResults = [], imageResults = [], context_str = [],
            events = [Status ''status-1'' ''Starting search...'',
                      Status ''status-2'' ''Searching for relevant sources...'', error_event e]\<rparr>"
    by (rule execute_general_throws [OF assms(1)])
  then show "filter is_Error_event (events (execute X w)) = [error_event e]"
    "filter is_Sources (events (execute X w)) = []"
    "filter is_TextDelta (events (execute X w)) = []"
    by simp_all
  show "\<exists>d. error_event e = Error d \<and> e_error d \<noteq> []"
    by (rule error_event_message [OF search_error_carries_message [OF assms]])
qed

lemma best_effort_throws: "performSourceSearch h = Inl e \<Longrightarrow> best_effort h = JNull"
  by (simp add: best_effort_def)

lemma no_results_of_null [simp]:
  "newsSource_of JNull = []" "imageSource_of JNull = []"
  "newsSource_of (JObj []) = []" "imageSource_of (JObj []) = []"
  by (simp_all add: newsSource_of_def imageSource_of_def opt_prop_def nullish_def)

lemma normalize_Nil [simp]:
  "normalize_news X [] = Inr []" "normalize_images X [] = Inr []" "normalize_web X [] = Inr []"
  by (simp_all add: normalize_news_def normalize_images_def normalize_web_def)

lemma empty_payload [simp]: "best_effort (Response True (Inr (JObj [])) t) = JObj []"
  by (simp add: best_effort_def performSourceSearch_def js_or_def)

lemma followup_stage_update:
  "followup_stage (w\<lparr>news := h\<rparr>) st = followup_stage w st"
  "followup_stage (w\<lparr>images := h\<rparr>) st = followup_stage w st"
  "conversationPreview (w\<lparr>news := h\<rparr>) = conversationPreview w"
  "conversationPreview (w\<lparr>images := h\<rparr>) = conversationPreview w"
  "isFollowUp (w\<lparr>news := h\<rparr>) = isFollowUp w"
  "isFollowUp (w\<lparr>images := h\<rparr>) = isFollowUp w"
  by (simp_all add: followup_stage_def conversationPreview_def isFollowUp_def)

lemma stages_news_update:
  "enrich_stage X (w\<lparr>news := h\<rparr>) st = enrich_stage X w st"
  "context_stage X (w\<lparr>news := h\<rparr>) st = context_stage X w st"
  "answer_stage X (w\<lparr>news := h\<rparr>) st = answer_stage X w st"
  by (simp_all add: enrich_stage_def context_stage_def answer_stage_def followup_stage_update
        split: answer.splits option.splits sum.splits)

lemma stages_images_update:
  "enrich_stage X (w\<lparr>images := h\<rparr>) st = enrich_stage X w st"
  "context_stage X (w\<lparr>images := h\<rparr>) st = context_stage X w st"
  "answer_stage X (w\<lparr>images := h\<rparr>) st = answer_stage X w st"
  by (simp_all add: enrich_stage_def context_stage_def answer_stage_def followup_stage_update
        split: answer.splits option.splits sum.splits)

text \<open>The stream of a request does not tell a failed news search from one with no results.\<close>

lemma news_failure_as_empty:
  assumes "performSourceSearch (news w) = Inl e"
  shows "execute X w = execute X (w\<lparr>news := Response True (Inr (JObj [])) []\<rparr>)"
proof -
  have "try_block X w st = try_block X (w\<lparr>news := Response True (Inr (JObj [])) []\<rparr>) st" for st
    using best_effort_throws [OF assms]
    by (cases "performSourceSearch (general w)")
       (simp_all add: try_block_def search_all_def stages_news_update Let_def split: sum.splits)
  then show ?thesis by (simp add: execute_def)
qed

lemma images_failure_as_empty:
  assumes "performSourceSearch (images w) = Inl e"
  shows "execute X w = execute X (w\<lparr>images := Response True (Inr (JObj [])) []\<rparr>)"
proof -
  have "try_block X w st = try_block X (w\<lparr>images := Response True (Inr (JObj [])) []\<rparr>) st" for st
    using best_effort_throws [OF assms]
    by (cases "performSourceSearch (general w)")
       (simp_all add: try_block_def search_all_def stages_images_update Let_def split: sum.splits)
  then show ?thesis by (simp add: execute_def)
qed

lemma execute_throws_early:
  assumes "search_all (general w) (news w) (images w) = Inl e
     \<or> (\<exists>webData newsData imagesData.
          search_all (general w) (news w) (images w) = Inr (webData, newsData, imagesData)
          \<and> (normalize_web X (webResults_of webData) = Inl e
             \<or> (\<exists>srcs. normalize_web X (webResults_of webData) = Inr srcs
                  \<and> (normalize_news X (newsSource_of newsData) = Inl e
                     \<or> (\<exists>ns. normalize_news X (newsSource_of newsData) = Inr ns
                          \<and> normalize_images X (imageSource_of imagesData) = Inl e)))))"
  shows "events (execute X w) =
     [Status ''status-1'' ''Starting search...'',
      Status ''status-2'' ''Searching for relevant sources...'', error_event e]"
  using assms by (auto simp: execute_def try_block_def Let_def)

lemma Sources_event_inversion:
  assumes "Sources b \<in> set (events (execute X w))"
  shows "\<exists>webData srcs ns ims.
     performSourceSearch (general w) = Inr webData
     \<and> normalize_web X (webResults_of webData) = Inr srcs
     \<and> normalize_news X (newsSource_of (best_effort (news w))) = Inr ns
     \<and> normalize_images X (imageSource_of (best_effort (images w))) = Inr ims
     \<and> b = \<lparr>b_sources =
                 (if srcs = [] then []
                  else enrich (scrapeLimit (parsedLimit X (scrape_limit_env w))) (scrapes w) srcs),
             b_newsResults = ns, b_imageResults = ims\<rparr>
     \<and> sources (execute X w) = b_sources b
     \<and> context_str (execute X w) = build_context X (query w) (b_sources b)"
proof -
  have no: False if "events (execute X w) =
     [Status ''status-1'' ''Starting search...'',
      Status ''status-2'' ''Searching for relevant sources...'', error_event e]" for e
    using assms that by (simp add: error_event_def Let_def)
  show ?thesis
  proof (cases "performSourceSearch (general w)")
    case (Inl e)
    then have "search_all (general w) (news w) (images w) = Inl e" by (simp add: search_all_def)
    then show ?thesis using no [of e] execute_throws_early [of w e X] by blast
  next
    case (Inr webData)
    then have sa: "search_all (general w) (news w) (images w)
        = Inr (webData, best_effort (news w), best_effort (images w))"
      by (simp add: search_all_def)
    show ?thesis
    proof (cases "normalize_web X (webResults_of webData)")
      case (Inl e)
      with sa show ?thesis using no [of e] execute_throws_early [of w e X] by blast
    next
      case srcs: (Inr srcs)
      show ?thesis
      proof (cases "normalize_news X (newsSource_of (best_effort (news w)))")
        case (Inl e)
        with sa srcs show ?thesis using no [of e] execute_throws_early [of w e X] by blast
      next
        case ns: (Inr ns)
        show ?thesis
        proof (cases "normalize_images X (imageSource_of (best_effort (images w)))")
          case (Inl e)
          with sa srcs ns show ?thesis using no [of e] execute_throws_early [of w e X] by blast
        next
          case ims: (Inr ims)
          note n = execute_normalized_Sources [OF sa srcs ns ims]
          from assms have "Sources b \<in> set (filter is_Sources (events (execute X w)))" by simp
          then have "b = \<lparr>b_sources =
                 (if srcs = [] then []
                  else enrich (scrapeLimit (parsedLimit X (scrape_limit_env w))) (scrapes w) srcs),
             b_newsResults = ns, b_imageResults = ims\<rparr>"
            unfolding n(1) by simp
          with Inr srcs ns ims n(2,3) show ?thesis by simp
        qed
      qed
    qed
  qed
qed



lemma execute_events_prefix:
  "\<exists>rest. events (execute X w) =
       events (fst (try_block X w \<lparr>sources = [], newsResults = [], imageResults = [],
                                   context_str = [], events = []\<rparr>)) @ rest
     \<and> filter is_Sources rest = []"
  by (auto simp: execute_def split: prod.splits option.splits)


text \<open>
  C8 (as amended). When the searches and normalization do not throw, the request writes
  exactly one \<^verbatim>\<open>data-sources\<close> part. With sources it comes after the status part that
  announces enrichment and carries the enriched sources; with no source it comes right
  after the two first status parts, and nothing is enriched.
\<close>

theorem sources_emitted_once:
  assumes "search_all (general w) (news w) (images w) = Inr (webData, newsData, imagesData)"
    and "normalize_web X (webResults_of webData) = Inr srcs"
    and "normalize_news X (newsSource_of newsData) = Inr ns"
    and "normalize_images X (imageSource_of imagesData) = Inr ims"
  shows "length (filter is_Sources (events (execute X w))) = 1
       \<and> (\<exists>rest. events (execute X w) =
             [Status ''status-1'' ''Starting search...'',
              Status ''status-2'' ''Searching for relevant sources...'']
             @ (if srcs = [] then [] else [Status ''status-3a'' ''Fetching full article content...''])
             @ [Sources \<lparr>b_sources =
                          (if srcs = [] then []
                           else enrich (scrapeLimit (parsedLimit X (scrape_limit_env w)))
                                  (scrapes w) srcs),
                        b_newsResults = ns, b_imageResults = ims\<rparr>]
             @ rest
           \<and> filter is_Sources rest = [])"
proof -
  let ?init = "\<lparr>sources = [], newsResults = [], imageResults = [], context_str = [], events = []\<rparr>"
  let ?norm = "(writer_write (Status ''status-2'' ''Searching for relevant sources...'')
          (writer_write (Status ''status-1'' ''Starting search...'') ?init))
        \<lparr>sources := srcs, newsResults := ns, imageResults := ims\<rparr>"
  let ?e = "enrich_stage X w ?norm"
  let ?c = "context_stage X w ?e"
  let ?r = "answer_stage X w ?c"
  let ?b = "\<lparr>b_sources =
                          (if srcs = [] then []
                           else enrich (scrapeLimit (parsedLimit X (scrape_limit_env w)))
                                  (scrapes w) srcs),
                        b_newsResults = ns, b_imageResults = ims\<rparr>"
  have tb: "try_block X w ?init = ?r" by (rule try_block_normalized [OF assms])
  obtain r1 where r1: "events (fst ?r) = events ?c @ r1" "filter is_Sources r1 = []"
    using answer_stage_prefix [of X w ?c] by blast
  obtain r2 where r2: "events ?c = events ?e @ r2" "filter is_Sources r2 = []"
    using context_stage_prefix [of X w ?e] by blast
  have e: "events ?e =
      [Status ''status-1'' ''Starting search...'',
       Status ''status-2'' ''Searching for relevant sources...'']
      @ (if srcs = [] then [] else [Status ''status-3a'' ''Fetching full article content...''])
      @ [Sources ?b]"
    unfolding enrich_stage_prefix
    by (simp add: current_bundle_def enrich_stage_vars writer_write_def)
  obtain r3 where r3: "events (execute X w) = events (fst ?r) @ r3" "filter is_Sources r3 = []"
    using execute_events_prefix [of X w] unfolding tb by blast
  have "events (execute X w) =
      ([Status ''status-1'' ''Starting search...'',
       Status ''status-2'' ''Searching for relevant sources...'']
      @ (if srcs = [] then [] else [Status ''status-3a'' ''Fetching full article content...''])
      @ [Sources ?b]) @ (r2 @ r1 @ r3)"
    unfolding r3 r1 r2 e by simp
  moreover have "filter is_Sources (r2 @ r1 @ r3) = []"
    using r1 r2 r3 by simp
  moreover have "length (filter is_Sources (events (execute X w))) = 1"
    unfolding execute_normalized_Sources(1) [OF assms] by simp
  ultimately show ?thesis by (metis append_assoc)
qed

text \<open>
  C4. Let the general search succeed. When the news search throws, the request runs
  exactly as it does when the news search returns a payload with no results: the throw
  adds nothing to the stream, so it writes no \<^verbatim>\<open>data-error\<close> part of its own and the
  request ends as the request with no news does; and the news list of every bundle the
  request emits is empty. The same holds for the images search.
\<close>

theorem best_effort_failure_stream:
  assumes "performSourceSearch (general w) = Inr webData"
  shows
    "(performSourceSearch (news w) = Inl e \<longrightarrow>
        execute X w = execute X (w\<lparr>news := Response True (Inr (JObj [])) []\<rparr>)
        \<and> (\<forall>b. Sources b \<in> set (events (execute X w)) \<longrightarrow> b_newsResults b = []))
   \<and> (performSourceSearch (images w) = Inl e \<longrightarrow>
        execute X w = execute X (w\<lparr>images := Response True (Inr (JObj [])) []\<rparr>)
        \<and> (\<forall>b. Sources b \<in> set (events (execute X w)) \<longrightarrow> b_imageResults b = []))"
proof (intro conjI impI allI)
  assume t: "performSourceSearch (news w) = Inl e"
  show "execute X w = execute X (w\<lparr>news := Response True (Inr (JObj [])) []\<rparr>)"
    by (rule news_failure_as_empty [OF t])
  fix b assume "Sources b \<in> set (events (execute X w))"
  from Sources_event_inversion [OF this] best_effort_throws [OF t]
  show "b_newsResults b = []" by auto
next
  assume t: "performSourceSearch (images w) = Inl e"
  show "execute X w = execute X (w\<lparr>images := Response True (Inr (JObj [])) []\<rparr>)"
    by (rule images_failure_as_empty [OF t])
  fix b assume "Sources b \<in> set (events (execute X w))"
  from Sources_event_inversion [OF this] best_effort_throws [OF t]
  show "b_imageResults b = []" by auto
qed

section \<open>The concrete request, evaluated\<close>

lemma example_general: "performSourceSearch (general example_world) = Inr example_web"
  by (simp add: example_world_def ok_response_def performSourceSearch_def js_or_def example_web_def)

lemma example_search_all:
  "search_all (general example_world) (news example_world) (images example_world) =
     Inr (example_web, JNull,
          JObj [(''images'', JArr [JObj [(''img_src'', JStr ''https://a.org/p.png'')]])])"
  by code_simp

lemma example_normalize_web:
  "normalize_web example_externals (webResults_of example_web) = Inr example_sources"
  by code_simp

lemma example_normalize_images:
  "normalize_images example_externals
     (imageSource_of (JObj [(''images'', JArr [JObj [(''img_src'', JStr ''https://a.org/p.png'')]])]))
   = Inr (b_imageResults example_bundle)"
  by code_simp

lemma example_Sources:
  "Sources example_bundle \<in> set (events (execute example_externals example_world))"
  by code_simp


text \<open>
  The general search answers with a response that is not ok: the stream is the two status
  parts and one error part with the message the search throws. And when its fetch is
  rejected, the error part carries the message of the rejection.
\<close>

theorem general_failure_stream_witness:
  "events (execute example_externals
     (example_world\<lparr>general :=
        Response False (Inr (JObj [(''error'', JStr ''rate limited'')])) ''Too Many Requests''\<rparr>))
   = [Status ''status-1'' ''Starting search...'',
      Status ''status-2'' ''Searching for relevant sources...'',
      Error \<lparr>e_error = ''SearxNG search error: rate limited'', e_suggestion = None,
             e_statusCode = None\<rparr>]
   \<and> filter is_Error_event (events (execute example_externals
         (example_world\<lparr>general := FetchRejected (new_Error ''fetch failed'')\<rparr>)))
     = [Error \<lparr>e_error = ''fetch failed'', e_suggestion = None, e_statusCode = None\<rparr>]"
proof -
  have h: "performSourceSearch (general (example_world\<lparr>general :=
        Response False (Inr (JObj [(''error'', JStr ''rate limited'')])) ''Too Many Requests''\<rparr>))
      = Inl (new_Error ''SearxNG search error: rate limited'')"
    by (simp add: performSourceSearch_def get_def js_or_def)
  have m: "errors_carry_message (general (example_world\<lparr>general :=
        Response False (Inr (JObj [(''error'', JStr ''rate limited'')])) ''Too Many Requests''\<rparr>))"
    by simp
  have h': "performSourceSearch (general (example_world\<lparr>general :=
        FetchRejected (new_Error ''fetch failed'')\<rparr>)) = Inl (new_Error ''fetch failed'')"
    by (simp add: performSourceSearch_def)
  have m': "errors_carry_message (general (example_world\<lparr>general :=
        FetchRejected (new_Error ''fetch failed'')\<rparr>))"
    by (simp add: carries_message_def new_Error_def)
  from general_failure_stream [OF h m, of example_externals]
    general_failure_stream [OF h' m', of example_externals]
  show ?thesis
    by (simp add: error_event_def new_Error_def)
qed

text \<open>The concrete request writes its bundle once.\<close>

theorem sources_emitted_once_witness:
  "length (filter is_Sources (events (execute example_externals example_world))) = 1
   \<and> filter is_Sources (events (execute example_externals example_world)) = [Sources example_bundle]"
proof -
  have "normalize_news example_externals (newsSource_of JNull) = Inr []" by simp
  from sources_emitted_once [OF example_search_all example_normalize_web this example_normalize_images]
  have "length (filter is_Sources (events (execute example_externals example_world))) = 1"
    by blast
  moreover have "filter is_Sources (events (execute example_externals example_world))
      = [Sources example_bundle]"
    by code_simp
  ultimately show ?thesis by blast
qed

text \<open>
  The concrete request has four normalized sources, and its stream holds one
  \<^verbatim>\<open>data-sources\<close> part, not two.
\<close>

theorem sources_emitted_once_counterexample:
  "normalize_web example_externals (webResults_of example_web) = Inr example_sources
   \<and> length example_sources = 4
   \<and> length (filter is_Sources (events (execute example_externals example_world))) = 1"
proof -
  have "length example_sources = 4" by (simp add: example_sources_def)
  moreover have "length (filter is_Sources (events (execute example_externals example_world))) = 1"
    by code_simp
  ultimately show ?thesis using example_normalize_web by simp
qed

text \<open>
  In the follow-up request the conversation preview throws on the last message, after the
  answer: the deltas are written, then the error part, and no follow-up part.
\<close>

lemma preview_throw_example:
  "drop 6 (events (execute example_externals example_world_followup))
   = [TextDelta ''Paris'', TextDelta '' [1]'',
      Error \<lparr>e_error = ''Cannot read properties of null (reading '' @ [CHR 0x27] @ ''parts''
                         @ [CHR 0x27] @ '')'',
             e_suggestion = None, e_statusCode = None\<rparr>]"
  by code_simp

text \<open>
  The news search of the concrete request fails: the request runs as with an empty news
  payload, the news of its bundle are empty and it writes no error part. The same run
  with a failing images search.
\<close>

theorem best_effort_failure_stream_witness:
  "execute example_externals example_world
     = execute example_externals (example_world\<lparr>news := Response True (Inr (JObj [])) []\<rparr>)
   \<and> b_newsResults example_bundle = []
   \<and> filter is_Error_event (events (execute example_externals example_world)) = []
   \<and> execute example_externals (example_world\<lparr>images := FetchRejected (new_Error ''timeout'')\<rparr>)
     = execute example_externals (example_world\<lparr>images := Response True (Inr (JObj [])) []\<rparr>)"
proof -
  have n: "performSourceSearch (news example_world) = Inl (new_Error ''fetch failed'')"
    by (simp add: example_world_def performSourceSearch_def)
  have i: "performSourceSearch (images (example_world\<lparr>images := FetchRejected (new_Error ''timeout'')\<rparr>))
      = Inl (new_Error ''timeout'')"
    by (simp add: performSourceSearch_def)
  have g: "performSourceSearch (general (example_world\<lparr>images := FetchRejected (new_Error ''timeout'')\<rparr>))
      = Inr example_web"
    using example_general by simp
  from best_effort_failure_stream [OF example_general, of "new_Error ''fetch failed''" example_externals]
    n example_Sources
  have "execute example_externals example_world
     = execute example_externals (example_world\<lparr>news := Response True (Inr (JObj [])) []\<rparr>)
     \<and> b_newsResults example_bundle = []"
    by blast
  moreover from best_effort_failure_stream [OF g, of "new_Error ''timeout''" example_externals] i
  have "execute example_externals (example_world\<lparr>images := FetchRejected (new_Error ''timeout'')\<rparr>)
     = execute example_externals (example_world\<lparr>images := Response True (Inr (JObj [])) []\<rparr>)"
    by simp
  moreover have "filter is_Error_event (events (execute example_externals example_world)) = []"
    by code_simp
  ultimately show ?thesis by blast
qed

text \<open>
  Limits 3, 0.5, -2 and unset give 3, 1, 5 and 5; with limit 3 the scrapes are those of the
  first three of the four sources, and the fourth source is unchanged.
\<close>

theorem enrichment_limit_witness:
  "nat (max 1 (scrapeLimit (parsedLimit example_externals (Some ''3'')))) = 3
   \<and> nat (max 1 (scrapeLimit (parsedLimit example_externals (Some ''0.5'')))) = 1
   \<and> nat (max 1 (scrapeLimit (parsedLimit example_externals (Some ''-2'')))) = 5
   \<and> nat (max 1 (scrapeLimit (parsedLimit example_externals None))) = 5
   \<and> map fst (scraped (scrapes example_world)
        (targets (scrapeLimit (parsedLimit example_externals (Some ''3''))) example_sources))
      = [JStr ''https://www.a.org/1'', JStr ''https://b.org/2'', JStr ''https://c.org/3'']
   \<and> enrich (scrapeLimit (parsedLimit example_externals (Some ''3''))) (scrapes example_world)
        example_sources ! 3 = example_sources ! 3"
proof -
  have "to_number example_externals ''3'' = Finite 3"
    "to_number example_externals ''0.5'' = Finite (1 / 2)"
    "to_number example_externals ''-2'' = Finite (- 2)"
    by (simp_all add: example_externals_def)
  moreover have "length example_sources = 4"
    "map url (take 3 example_sources)
      = [JStr ''https://www.a.org/1'', JStr ''https://b.org/2'', JStr ''https://c.org/3'']"
    by (simp_all add: example_sources_def example_source_def)
  ultimately show ?thesis
    using enrichment_limit [of example_externals "Some ''3''" "scrapes example_world" example_sources]
      enrichment_limit [of example_externals "Some ''0.5''" "scrapes example_world" example_sources]
      enrichment_limit [of example_externals "Some ''-2''" "scrapes example_world" example_sources]
      enrichment_limit [of example_externals None "scrapes example_world" example_sources]
    by (simp add: Let_def)
qed

text \<open>
  Enrichment of the four sources: the first gets the markdown of its scrape, the second
  (its scrape fails) is unchanged, the third gets the content of its scrape and keeps its
  markdown, since the scraped markdown is empty.
\<close>

theorem enrichment_frame_witness:
  "length (enrich 3 (scrapes example_world) example_sources) = 4
   \<and> map url (enrich 3 (scrapes example_world) example_sources)
      = [JStr ''https://www.a.org/1'', JStr ''https://b.org/2'', JStr ''https://c.org/3'',
         JStr ''https://d.org/4'']
   \<and> (enrich 3 (scrapes example_world) example_sources ! 2)
        \<lparr>markdown := markdown (example_sources ! 2), content := content (example_sources ! 2)\<rparr>
      = example_sources ! 2
   \<and> markdown (enrich 3 (scrapes example_world) example_sources ! 0) = JStr ''# Paris''
   \<and> markdown (enrich 3 (scrapes example_world) example_sources ! 2) = JUndefined
   \<and> content (enrich 3 (scrapes example_world) example_sources ! 2) = JStr ''full c3''
   \<and> enrich 3 (scrapes example_world) example_sources ! 1 = example_sources ! 1"
proof -
  have "length example_sources = 4"
    "map url example_sources
      = [JStr ''https://www.a.org/1'', JStr ''https://b.org/2'', JStr ''https://c.org/3'',
         JStr ''https://d.org/4'']"
    by (simp_all add: example_sources_def example_source_def)
  moreover have "markdown (enrich 3 (scrapes example_world) example_sources ! 0) = JStr ''# Paris''"
    "markdown (enrich 3 (scrapes example_world) example_sources ! 2) = JUndefined"
    "content (enrich 3 (scrapes example_world) example_sources ! 2) = JStr ''full c3''"
    "enrich 3 (scrapes example_world) example_sources ! 1 = example_sources ! 1"
    by code_simp+
  ultimately show ?thesis
    using enrichment_frame [of 3 "scrapes example_world" example_sources]
    by simp
qed

section \<open>Normalization of a malformed item\<close>

text \<open>
  C7 (the code misses it). The callbacks drop an item that has no url, but they read
  \<^verbatim>\<open>item.url\<close> of an item that is \<^verbatim>\<open>null\<close>: normalization then throws a \<^verbatim>\<open>TypeError\<close>
  in each of the three categories. In the request whose news search succeeds with results
  that hold \<^verbatim>\<open>null\<close>, the throw reaches the catch block: the request ends with a
  \<^verbatim>\<open>data-error\<close> part and emits no bundle, although the news search is best-effort. And a
  result item that is a string is kept, with the function \<^verbatim>\<open>String.prototype.link\<close> as its
  url.
\<close>

theorem normalization_null_item:
  "normalize_web example_externals (webResults_of (JObj [(''results'', JArr [JNull])]))
     = Inl (type_error ''null'' ''url'')
   \<and> normalize_news example_externals (newsSource_of (JObj [(''results'', JArr [JNull])]))
     = Inl (type_error ''null'' ''url'')
   \<and> normalize_images example_externals (imageSource_of (JObj [(''results'', JArr [JNull])]))
     = Inl (type_error ''null'' ''url'')
   \<and> events (execute example_externals example_world_null_news)
     = [Status ''status-1'' ''Starting search...'',
        Status ''status-2'' ''Searching for relevant sources...'',
        Error \<lparr>e_error = ''Cannot read properties of null (reading '' @ [CHR 0x27] @ ''url''
                           @ [CHR 0x27] @ '')'',
               e_suggestion = None, e_statusCode = None\<rparr>]
   \<and> normalize_web example_externals (webResults_of example_web_string_item)
     = Inr [\<lparr>url = JFunction ''link'', title = JFunction ''link'', description = JUndefined,
             content = JUndefined, markdown = JUndefined, favicon = JUndefined,
             image = JUndefined, siteName = JUndefined\<rparr>]"
  by code_simp

section \<open>Properties of the follow-up questions\<close>








section \<open>Properties of the check-env endpoint\<close>

lemma not_not_cong: "truthy a = truthy b \<Longrightarrow> not_not a = not_not b"
  by (simp add: not_not_def)

text \<open>
  C10. Two environments that agree, for each of the six variables read, on whether the
  variable is set and non-empty get the same response from the check-env endpoint; the
  response is an object whose property values are all booleans, so no value of a variable
  appears in it.
\<close>

theorem check_env_presence_only:
  assumes "\<forall>k \<in> set check_env_vars. truthy (env_read e1 k) = truthy (env_read e2 k)"
  shows "GET e1 = GET e2 \<and> (\<forall>v \<in> set (values_of (GET e1)). \<exists>b. v = JBool b)"
proof -
  have "not_not (env_read e1 k) = not_not (env_read e2 k)" if "k \<in> set check_env_vars" for k
    using assms that by (intro not_not_cong) blast
  then have "GET e1 = GET e2"
    by (simp add: GET_def check_env_vars_def)
  moreover have "\<forall>v \<in> set (values_of (GET e1)). \<exists>b. v = JBool b"
    by (simp add: GET_def not_not_def)
  ultimately show ?thesis by blast
qed

text \<open>
  Two environments with different keys (one also has an empty \<^verbatim>\<open>OPENAI_MODEL\<close>) get the
  same response.
\<close>

theorem check_env_presence_only_witness:
  "GET [''FIRECRAWL_API_KEY'' \<mapsto> ''fc-111'', ''OPENAI_MODEL'' \<mapsto> '''']
     = GET [''FIRECRAWL_API_KEY'' \<mapsto> ''fc-222'']
   \<and> GET [''FIRECRAWL_API_KEY'' \<mapsto> ''fc-222'']
     = JObj [(''hasFirecrawlKey'', JBool True), (''hasFirecrawlBaseUrl'', JBool False),
             (''hasOpenAIKey'', JBool False), (''hasOpenAIBaseUrl'', JBool False),
             (''hasOpenAIModel'', JBool False), (''hasOpenAIApiMode'', JBool False)]"
proof -
  have h: "\<forall>k \<in> set check_env_vars.
      truthy (env_read [''FIRECRAWL_API_KEY'' \<mapsto> ''fc-111'', ''OPENAI_MODEL'' \<mapsto> ''''] k)
      = truthy (env_read [''FIRECRAWL_API_KEY'' \<mapsto> ''fc-222''] k)"
    by (simp add: check_env_vars_def env_read_def)
  have "GET [''FIRECRAWL_API_KEY'' \<mapsto> ''fc-222'']
     = JObj [(''hasFirecrawlKey'', JBool True), (''hasFirecrawlBaseUrl'', JBool False),
             (''hasOpenAIKey'', JBool False), (''hasOpenAIBaseUrl'', JBool False),
             (''hasOpenAIModel'', JBool False), (''hasOpenAIApiMode'', JBool False)]"
    by (simp add: GET_def env_read_def not_not_def)
  with check_env_presence_only [OF h] show ?thesis by blast
qed

end
